theory Spec2Isabelle
  imports Complex_Main "HOL-Library.AList"
begin

section \<open>JavaScript values\<close>

text \<open>
  The values the projection code inspects with \<open>typeof\<close>, \<open>instanceof\<close> and
  \<open>=== undefined\<close>. A number is a double: not-a-number, an infinity, or a finite
  value (every finite double is a rational). A \<open>Date\<close> object carries its time value
  in milliseconds, or no time value when it is an Invalid Date. \<open>JOther\<close> stands for
  the remaining primitives and callables (function, symbol, bigint) together with the
  text \<open>String(v)\<close> renders them as.
\<close>

datatype jsnum = NaN | PosInf | NegInf | Fin rat

datatype jsval =
    JUndefined
  | JNull
  | JBool bool
  | JNum jsnum
  | JStr string
  | JDate "int option"
  | JArr "jsval list"
  | JObj "(string \<times> jsval) list"
  | JOther string

text \<open>An exception in flight: an \<open>Error\<close> instance with its message, or any other thrown value.\<close>

datatype exn = Error string | RangeError string | TypeError string | Thrown jsval

text \<open>
  \<open>error instanceof Error ? error.message : 'Unknown error'\<close>, the conversion every
  catch block of the resolvers applies.
\<close>

fun errorMessage :: "exn \<Rightarrow> string" where
  "errorMessage (Error m) = m"
| "errorMessage (RangeError m) = m"
| "errorMessage (TypeError m) = m"
| "errorMessage (Thrown v) = ''Unknown error''"

section \<open>Name sanitization (type-mapper)\<close>

text \<open>
  The character class \<open>[a-zA-Z0-9_]\<close> of the two regular expressions, on character codes.
\<close>

definition isLower :: "char \<Rightarrow> bool" where
  "isLower c = (97 \<le> (of_char c :: nat) \<and> (of_char c :: nat) \<le> 122)"

definition isUpper :: "char \<Rightarrow> bool" where
  "isUpper c = (65 \<le> (of_char c :: nat) \<and> (of_char c :: nat) \<le> 90)"

definition isDigit :: "char \<Rightarrow> bool" where
  "isDigit c = (48 \<le> (of_char c :: nat) \<and> (of_char c :: nat) \<le> 57)"

definition isNameChar :: "char \<Rightarrow> bool" where
  "isNameChar c = (isLower c \<or> isUpper c \<or> isDigit c \<or> c = CHR ''_'')"

text \<open>\<open>name.replace(/[^a-zA-Z0-9_]/g, '_')\<close>\<close>

definition replaceSpecial :: "string \<Rightarrow> string" where
  "replaceSpecial name = map (\<lambda>c. if isNameChar c then c else CHR ''_'') name"

text \<open>\<open>/^[0-9]/.test(sanitized)\<close>\<close>

fun startsWithDigit :: "string \<Rightarrow> bool" where
  "startsWithDigit [] = False"
| "startsWithDigit (c # cs) = isDigit c"

text \<open>\<open>if (/^[0-9]/.test(sanitized)) sanitized = `_${sanitized}`\<close>\<close>

definition prefixDigit :: "string \<Rightarrow> string" where
  "prefixDigit sanitized = (if startsWithDigit sanitized then CHR ''_'' # sanitized else sanitized)"

text \<open>
  \<open>toUpperCase\<close> and \<open>toLowerCase\<close> of one character, as the ASCII case mappings. The
  sanitizers apply them to a character of an already sanitized name only, hence to a
  character of \<open>[a-zA-Z0-9_]\<close>.
\<close>

definition toUpperCase :: "char \<Rightarrow> char" where
  "toUpperCase c = (if isLower c then char_of ((of_char c :: nat) - 32) else c)"

definition toLowerCase :: "char \<Rightarrow> char" where
  "toLowerCase c = (if isUpper c then char_of ((of_char c :: nat) + 32) else c)"

text \<open>
  \<open>s.split(sep)\<close> for a one-character separator: the empty string splits into one empty
  part, and a separator at either end leaves an empty part there.
\<close>

fun split :: "char \<Rightarrow> string \<Rightarrow> string list" where
  "split sep [] = [[]]"
| "split sep (c # cs) =
     (if c = sep then [] # split sep cs
      else (case split sep cs of
              [] \<Rightarrow> [[c]]
            | p # ps \<Rightarrow> (c # p) # ps))"

text \<open>\<open>part.charAt(0).toUpperCase() + part.slice(1)\<close>\<close>

fun capitalize :: "string \<Rightarrow> string" where
  "capitalize [] = []"
| "capitalize (c # cs) = toUpperCase c # cs"

text \<open>\<open>sanitizeTypeName\<close>: replace, prefix a leading digit, then PascalCase the parts between underscores.\<close>

definition sanitizeTypeName :: "string \<Rightarrow> string" where
  "sanitizeTypeName name =
     concat (map capitalize (split (CHR ''_'') (prefixDigit (replaceSpecial name))))"

text \<open>\<open>sanitizeFieldName\<close>: replace, prefix a leading digit, then lower-case the first character.\<close>

definition sanitizeFieldName :: "string \<Rightarrow> string" where
  "sanitizeFieldName name =
     (case prefixDigit (replaceSpecial name) of
        [] \<Rightarrow> []
      | c # cs \<Rightarrow> toLowerCase c # cs)"

text \<open>\<open>sanitizeEnumValue\<close>: replace, then upper-case every character.\<close>

definition sanitizeEnumValue :: "string \<Rightarrow> string" where
  "sanitizeEnumValue v = map toUpperCase (replaceSpecial v)"

section \<open>The date-time scalar (type-mapper)\<close>

text \<open>
  The host's built-ins the scalar calls and this repository does not define:
  \<open>Date.parse\<close> (no result when the string is not recognised, that is NaN) and the
  ISO-8601 rendering of a valid time value.
\<close>

record date_host =
  Date_parse :: "string \<Rightarrow> int option"
  Date_toISO :: "int \<Rightarrow> string"

text \<open>
  \<open>TimeClip\<close> of ECMAScript: a non-finite number and a number beyond 8.64e15 in
  magnitude have no time value; any other is truncated towards zero.
\<close>

definition truncRat :: "rat \<Rightarrow> int" where
  "truncRat r = (if 0 \<le> r then \<lfloor>r\<rfloor> else \<lceil>r\<rceil>)"

fun TimeClip :: "jsnum \<Rightarrow> int option" where
  "TimeClip (Fin r) = (if \<bar>r\<bar> > 8640000000000000 then None else Some (truncRat r))"
| "TimeClip NaN = None"
| "TimeClip PosInf = None"
| "TimeClip NegInf = None"

text \<open>\<open>new Date(value)\<close> for a string or a number: the time value of the new object.\<close>

datatype strnum = S string | N jsnum

fun newDate :: "date_host \<Rightarrow> strnum \<Rightarrow> int option" where
  "newDate h (S s) = (case Date_parse h s of None \<Rightarrow> None | Some t \<Rightarrow> TimeClip (Fin (of_int t)))"
| "newDate h (N n) = TimeClip n"

text \<open>\<open>date.toISOString()\<close>: a RangeError on an Invalid Date.\<close>

fun toISOString :: "date_host \<Rightarrow> int option \<Rightarrow> exn + jsval" where
  "toISOString h None = Inl (RangeError ''Invalid time value'')"
| "toISOString h (Some t) = Inr (JStr (Date_toISO h t))"

text \<open>\<open>GraphQLDateTime.serialize\<close>: the left summand is the exception the call throws.\<close>

fun GraphQLDateTime_serialize :: "date_host \<Rightarrow> jsval \<Rightarrow> exn + jsval" where
  "GraphQLDateTime_serialize h (JDate d) = toISOString h d"
| "GraphQLDateTime_serialize h (JStr s) = toISOString h (newDate h (S s))"
| "GraphQLDateTime_serialize h (JNum n) = toISOString h (newDate h (N n))"
| "GraphQLDateTime_serialize h v = Inr JNull"

text \<open>\<open>GraphQLDateTime.parseValue\<close>\<close>

fun GraphQLDateTime_parseValue :: "date_host \<Rightarrow> jsval \<Rightarrow> exn + jsval" where
  "GraphQLDateTime_parseValue h (JStr s) = Inr (JDate (newDate h (S s)))"
| "GraphQLDateTime_parseValue h (JNum n) = Inr (JDate (newDate h (N n)))"
| "GraphQLDateTime_parseValue h v = Inr JNull"

text \<open>
  An input is unparseable when it denotes no instant: a value that is not a date, a
  string or a number, an Invalid Date object, or a string or number whose \<open>new Date\<close>
  has no time value.
\<close>

fun timeValueOf :: "date_host \<Rightarrow> jsval \<Rightarrow> int option" where
  "timeValueOf h (JDate d) = d"
| "timeValueOf h (JStr s) = newDate h (S s)"
| "timeValueOf h (JNum n) = newDate h (N n)"
| "timeValueOf h v = None"

definition isDateLike :: "jsval \<Rightarrow> bool" where
  "isDateLike v = (case v of JDate d \<Rightarrow> True | JStr s \<Rightarrow> True | JNum n \<Rightarrow> True | _ \<Rightarrow> False)"

definition isStringOrNumber :: "jsval \<Rightarrow> bool" where
  "isStringOrNumber v = (case v of JStr s \<Rightarrow> True | JNum n \<Rightarrow> True | _ \<Rightarrow> False)"

section \<open>The effect interpreter (mutation resolvers)\<close>

record EffectResultResponse =
  er_type :: string
  er_path :: "string option"
  er_description :: string

record ActionErrorResponse =
  ae_code :: string
  ae_message :: string

text \<open>
  The domain runtime is external and typed \<open>any\<close>: a state \<open>'rt\<close> and the methods
  the resolvers call on it. A method that throws returns the exception, next to the state
  it left behind; an optional method of the interface may be absent, and calling it
  then throws a TypeError. \<open>evaluateCondition\<close> yields the truthiness of its result.
\<close>

record 'rt runtime =
  rt_set :: "string \<Rightarrow> jsval \<Rightarrow> 'rt \<Rightarrow> 'rt \<times> exn option"
  rt_getSnapshot :: "'rt \<Rightarrow> exn + jsval"
  rt_evaluateCondition :: "(jsval \<Rightarrow> 'rt \<Rightarrow> exn + bool) option"
  rt_evaluatePrecondition :: "(jsval \<Rightarrow> 'rt \<Rightarrow> exn + bool \<times> string option) option"
  rt_runEffect :: "(string option \<Rightarrow> jsval \<Rightarrow> 'rt \<Rightarrow> 'rt \<times> exn option) option"

text \<open>
  \<open>effect.value\<close> of a SetValue node: a literal, or a function of the caller's input
  (which may throw).
\<close>

datatype setvalue = Literal jsval | Computed "jsval \<Rightarrow> exn + jsval"

text \<open>
  The effect tree as \<open>executeEffect\<close> reads it: the node's \<open>_tag\<close> and the fields
  of that tag. Both branches of a Conditional are tested with \<open>if (branch)\<close>, so
  either may be missing. A Custom node's \<open>handler\<close> is a function of the runtime and
  the input, or not a function at all. \<open>OtherTag\<close> is a node with any other tag (or
  none); \<open>Nullish\<close> is \<open>null\<close> or \<open>undefined\<close> in place of a node, where
  reading \<open>_tag\<close> throws.
\<close>

datatype 'rt effect =
    SetValue string setvalue
  | Sequence "'rt effect list"
  | Parallel "'rt effect list"
  | Conditional jsval "'rt effect option" "'rt effect option"
  | Custom "('rt \<Rightarrow> jsval \<Rightarrow> 'rt \<times> exn option) option" "string option"
  | OtherTag "string option"
  | Nullish

record 'rt effect_result =
  success :: bool
  effects :: "EffectResultResponse list"
  errors :: "ActionErrorResponse list"
  after :: 'rt

text \<open>
  \<open>formatValue\<close>. \<open>String(value)\<close> of a number is the host's; it is a parameter.
\<close>

fun formatValue :: "(jsnum \<Rightarrow> string) \<Rightarrow> jsval \<Rightarrow> string" where
  "formatValue ns JNull = ''null''"
| "formatValue ns JUndefined = ''undefined''"
| "formatValue ns (JStr s) = ''\"'' @ s @ ''\"''"
| "formatValue ns (JNum n) = ns n"
| "formatValue ns (JBool b) = (if b then ''true'' else ''false'')"
| "formatValue ns (JArr vs) = ''[array of '' @ ns (Fin (of_nat (length vs))) @ '']''"
| "formatValue ns (JObj fs) = ''[object]''"
| "formatValue ns (JDate d) = ''[object]''"
| "formatValue ns (JOther s) = s"

text \<open>
  The state of one call's \<open>try\<close> block when it is left: the local \<open>effects\<close> and
  \<open>errors\<close> arrays, the runtime, and the exception if the block was left by a throw.
\<close>

record 'rt frame =
  f_effects :: "EffectResultResponse list"
  f_errors :: "ActionErrorResponse list"
  f_runtime :: 'rt
  f_thrown :: "exn option"

definition completed :: "EffectResultResponse list \<Rightarrow> ActionErrorResponse list \<Rightarrow> 'rt \<Rightarrow> 'rt frame" where
  "completed effs errs rt = \<lparr>f_effects = effs, f_errors = errs, f_runtime = rt, f_thrown = None\<rparr>"

definition threw :: "EffectResultResponse list \<Rightarrow> ActionErrorResponse list \<Rightarrow> 'rt \<Rightarrow> exn \<Rightarrow> 'rt frame" where
  "threw effs errs rt e = \<lparr>f_effects = effs, f_errors = errs, f_runtime = rt, f_thrown = Some e\<rparr>"

text \<open>The catch block of \<open>executeEffect\<close>: one typed error for the exception caught.\<close>

definition effectExecutionError :: "exn \<Rightarrow> ActionErrorResponse" where
  "effectExecutionError e = \<lparr>ae_code = ''EFFECT_EXECUTION_ERROR'', ae_message = errorMessage e\<rparr>"

text \<open>
  The two ways out of \<open>executeEffect\<close>: the \<open>return\<close> that ends the \<open>try\<close> block
  and the \<open>return\<close> of the \<open>catch\<close> block. The function is \<open>async\<close>: the left
  summand of its result is a rejection of the promise it returns.
\<close>

definition tryCatch :: "'rt frame \<Rightarrow> exn + 'rt effect_result" where
  "tryCatch fr =
     (case f_thrown fr of
        None \<Rightarrow>
          Inr \<lparr>success = (f_errors fr = []), effects = f_effects fr, errors = f_errors fr,
               after = f_runtime fr\<rparr>
      | Some e \<Rightarrow>
          Inr \<lparr>success = False, effects = f_effects fr,
               errors = f_errors fr @ [effectExecutionError e], after = f_runtime fr\<rparr>)"

text \<open>The SetValue branch.\<close>

definition setValueBranch :: "(jsnum \<Rightarrow> string) \<Rightarrow> 'rt runtime \<Rightarrow> string \<Rightarrow> setvalue \<Rightarrow> jsval \<Rightarrow> 'rt \<Rightarrow> 'rt frame" where
  "setValueBranch ns ops path v input rt =
     (case (case v of Literal x \<Rightarrow> Inr x | Computed f \<Rightarrow> f input) of
        Inl e \<Rightarrow> threw [] [] rt e
      | Inr val \<Rightarrow>
          (case rt_set ops path val rt of
             (rt', Some e) \<Rightarrow> threw [] [] rt' e
           | (rt', None) \<Rightarrow>
               completed
                 [\<lparr>er_type = ''SetValue'', er_path = Some path,
                   er_description = ''Set '' @ path @ '' to '' @ formatValue ns val\<rparr>] [] rt'))"

text \<open>The Custom branch.\<close>

definition customBranch :: "('rt \<Rightarrow> jsval \<Rightarrow> 'rt \<times> exn option) option \<Rightarrow> string option \<Rightarrow> jsval \<Rightarrow> 'rt \<Rightarrow> 'rt frame" where
  "customBranch handler description input rt =
     (case handler of
        None \<Rightarrow> completed [] [] rt
      | Some f \<Rightarrow>
          (case f rt input of
             (rt', Some e) \<Rightarrow> threw [] [] rt' e
           | (rt', None) \<Rightarrow>
               completed
                 [\<lparr>er_type = ''Custom'', er_path = None,
                   er_description = (case description of None \<Rightarrow> ''Custom effect executed'' | Some d \<Rightarrow> d)\<rparr>]
                 [] rt'))"

text \<open>The final \<open>else\<close>: a node of unknown tag goes to \<open>runtime.runEffect\<close> when the runtime has one.\<close>

definition otherBranch :: "'rt runtime \<Rightarrow> string option \<Rightarrow> jsval \<Rightarrow> 'rt \<Rightarrow> 'rt frame" where
  "otherBranch ops tag input rt =
     (case rt_runEffect ops of
        None \<Rightarrow> completed [] [] rt
      | Some runEffect \<Rightarrow>
          (case runEffect tag input rt of
             (rt', Some e) \<Rightarrow> threw [] [] rt' e
           | (rt', None) \<Rightarrow>
               completed
                 [\<lparr>er_type = (case tag of None \<Rightarrow> ''Unknown'' | Some t \<Rightarrow> t), er_path = None,
                   er_description = ''Effect executed''\<rparr>] [] rt'))"

text \<open>Reading \<open>effect._tag\<close> of \<open>null\<close> or \<open>undefined\<close>.\<close>

definition nullishBranch :: "'rt \<Rightarrow> 'rt frame" where
  "nullishBranch rt = threw [] [] rt (TypeError ''Cannot read properties of undefined'')"

text \<open>\<open>runtime.evaluateCondition(effect.condition)\<close>\<close>

definition evaluateCondition :: "'rt runtime \<Rightarrow> jsval \<Rightarrow> 'rt \<Rightarrow> exn + bool" where
  "evaluateCondition ops condition rt =
     (case rt_evaluateCondition ops of
        None \<Rightarrow> Inl (TypeError ''runtime.evaluateCondition is not a function'')
      | Some f \<Rightarrow> f condition rt)"

text \<open>After \<open>await executeEffect(runtime, branch, input)\<close> in the Conditional branch.\<close>

definition branchDone :: "'rt \<Rightarrow> exn + 'rt effect_result \<Rightarrow> 'rt frame" where
  "branchDone rt r =
     (case r of
        Inl e \<Rightarrow> threw [] [] rt e
      | Inr branchResult \<Rightarrow> completed (effects branchResult) (errors branchResult) (after branchResult))"

text \<open>After \<open>await Promise.all(...)\<close> in the Parallel branch: the loop over the results.\<close>

definition parallelDone :: "'rt effect_result list \<times> 'rt \<times> exn option \<Rightarrow> 'rt frame" where
  "parallelDone p =
     (case p of
        (results, rt', Some e) \<Rightarrow> threw [] [] rt' e
      | (results, rt', None) \<Rightarrow> completed (concat (map effects results)) (concat (map errors results)) rt')"

text \<open>One more settled child of \<open>Promise.all\<close>: the first rejection is the one it reports.\<close>

definition settled :: "exn + 'rt effect_result \<Rightarrow> 'rt effect_result list \<times> 'rt \<times> exn option \<Rightarrow>
    'rt effect_result list \<times> 'rt \<times> exn option" where
  "settled r p =
     (case p of (results, rt', thrown) \<Rightarrow>
        (case r of
           Inl e \<Rightarrow> (results, rt', Some e)
         | Inr x \<Rightarrow> (x # results, rt', thrown)))"

text \<open>The runtime a child leaves behind (a rejected call leaves it as it found it).\<close>

definition runtimeAfter :: "'rt \<Rightarrow> exn + 'rt effect_result \<Rightarrow> 'rt" where
  "runtimeAfter rt r = (case r of Inl e \<Rightarrow> rt | Inr x \<Rightarrow> after x)"

text \<open>
  \<open>executeEffect\<close>, with \<open>sequenceLoop\<close> the \<open>for\<close> loop of the Sequence branch (with
  its \<open>break\<close>) over the local arrays, and \<open>parallelAll\<close> the \<open>Promise.all\<close> over the
  children of a Parallel node, which starts every child. The children of a Parallel node
  run in list order here.
\<close>

fun executeEffect :: "(jsnum \<Rightarrow> string) \<Rightarrow> 'rt runtime \<Rightarrow> 'rt effect \<Rightarrow> jsval \<Rightarrow> 'rt \<Rightarrow> exn + 'rt effect_result"
and sequenceLoop :: "(jsnum \<Rightarrow> string) \<Rightarrow> 'rt runtime \<Rightarrow> 'rt effect list \<Rightarrow> jsval \<Rightarrow> 'rt frame \<Rightarrow> 'rt frame"
and parallelAll :: "(jsnum \<Rightarrow> string) \<Rightarrow> 'rt runtime \<Rightarrow> 'rt effect list \<Rightarrow> jsval \<Rightarrow> 'rt \<Rightarrow>
      'rt effect_result list \<times> 'rt \<times> exn option"
where
  "executeEffect ns ops (SetValue path v) input rt = tryCatch (setValueBranch ns ops path v input rt)"
| "executeEffect ns ops (Sequence children) input rt =
     tryCatch (sequenceLoop ns ops children input (completed [] [] rt))"
| "executeEffect ns ops (Parallel children) input rt =
     tryCatch (parallelDone (parallelAll ns ops children input rt))"
| "executeEffect ns ops (Conditional condition thenBranch elseBranch) input rt =
     tryCatch
       (case evaluateCondition ops condition rt of
          Inl e \<Rightarrow> threw [] [] rt e
        | Inr c \<Rightarrow>
            (if c
             then (case thenBranch of
                     None \<Rightarrow> completed [] [] rt
                   | Some branch \<Rightarrow> branchDone rt (executeEffect ns ops branch input rt))
             else (case elseBranch of
                     None \<Rightarrow> completed [] [] rt
                   | Some branch \<Rightarrow> branchDone rt (executeEffect ns ops branch input rt))))"
| "executeEffect ns ops (Custom handler description) input rt =
     tryCatch (customBranch handler description input rt)"
| "executeEffect ns ops (OtherTag tag) input rt = tryCatch (otherBranch ops tag input rt)"
| "executeEffect ns ops Nullish input rt = tryCatch (nullishBranch rt)"
| "sequenceLoop ns ops [] input fr = fr"
| "sequenceLoop ns ops (childEffect # rest) input fr =
     (case executeEffect ns ops childEffect input (f_runtime fr) of
        Inl e \<Rightarrow> fr\<lparr>f_thrown := Some e\<rparr>
      | Inr childResult \<Rightarrow>
          (if \<not> success childResult
           then completed (f_effects fr @ effects childResult) (f_errors fr @ errors childResult)
                  (after childResult)
           else sequenceLoop ns ops rest input
                  (completed (f_effects fr @ effects childResult) (f_errors fr @ errors childResult)
                     (after childResult))))"
| "parallelAll ns ops [] input rt = ([], rt, None)"
| "parallelAll ns ops (e # es) input rt =
     settled (executeEffect ns ops e input rt)
       (parallelAll ns ops es input (runtimeAfter rt (executeEffect ns ops e input rt)))"

section \<open>Action mutation resolvers\<close>

text \<open>
  One entry of \<open>actionDef.preconditions\<close>, by the formats \<open>evaluatePreconditions\<close>
  probes: an object with a truthy \<open>$ref\<close> (and perhaps a \<open>reason\<close>); a function of
  the snapshot; \<open>null\<close>, which is an object whose \<open>$ref\<close> cannot be read; any other
  value.
\<close>

datatype precondition =
    RefPrecondition jsval "string option"
  | FunctionPrecondition "jsval \<Rightarrow> exn + bool"
  | NullPrecondition
  | OtherPrecondition jsval

record 'rt actionDef =
  ad_preconditions :: "precondition list option"
  ad_effect :: "'rt effect option"

definition defaultReason :: string where
  "defaultReason = ''Precondition not satisfied''"

text \<open>\<open>x ?? reason\<close>\<close>

definition orDefault :: "string option \<Rightarrow> string" where
  "orDefault r = (case r of None \<Rightarrow> defaultReason | Some x \<Rightarrow> x)"

text \<open>
  The \<open>try\<close> block of the loop body, up to the test of \<open>satisfied\<close>: the values of
  \<open>satisfied\<close> and \<open>reason\<close>, or the exception thrown on the way.
\<close>

fun probePrecondition :: "'rt runtime \<Rightarrow> 'rt \<Rightarrow> precondition \<Rightarrow> exn + bool \<times> string" where
  "probePrecondition ops rt (RefPrecondition ref reason) =
     (case evaluateCondition ops ref rt of
        Inl e \<Rightarrow> Inl e
      | Inr satisfied \<Rightarrow> Inr (satisfied, orDefault reason))"
| "probePrecondition ops rt (FunctionPrecondition f) =
     (case rt_getSnapshot ops rt of
        Inl e \<Rightarrow> Inl e
      | Inr snapshot \<Rightarrow>
          (case f snapshot of
             Inl e \<Rightarrow> Inl e
           | Inr satisfied \<Rightarrow> Inr (satisfied, defaultReason)))"
| "probePrecondition ops rt NullPrecondition = Inl (TypeError ''Cannot read properties of null'')"
| "probePrecondition ops rt (OtherPrecondition v) =
     (case rt_evaluatePrecondition ops of
        None \<Rightarrow> Inr (False, defaultReason)
      | Some f \<Rightarrow>
          (case f v rt of
             Inl e \<Rightarrow> Inl e
           | Inr (satisfied, reason) \<Rightarrow> Inr (satisfied, orDefault reason)))"

text \<open>
  What one precondition adds to \<open>blockedReasons\<close>: its reason when it is not satisfied,
  a fixed text when its evaluation throws, nothing when it is satisfied.
\<close>

definition blockedReason :: "'rt runtime \<Rightarrow> 'rt \<Rightarrow> precondition \<Rightarrow> string option" where
  "blockedReason ops rt p =
     (case probePrecondition ops rt p of
        Inl e \<Rightarrow> Some ''Error evaluating precondition''
      | Inr (satisfied, reason) \<Rightarrow> (if \<not> satisfied then Some reason else None))"

text \<open>The \<open>for\<close> loop of \<open>evaluatePreconditions\<close> over the array \<open>blockedReasons\<close>.\<close>

fun preconditionLoop :: "'rt runtime \<Rightarrow> 'rt \<Rightarrow> precondition list \<Rightarrow> string list \<Rightarrow> string list" where
  "preconditionLoop ops rt [] blockedReasons = blockedReasons"
| "preconditionLoop ops rt (p # ps) blockedReasons =
     preconditionLoop ops rt ps
       (case blockedReason ops rt p of
          None \<Rightarrow> blockedReasons
        | Some reason \<Rightarrow> blockedReasons @ [reason])"

record preconditions_result =
  canExecute :: bool
  blockedReasons :: "string list"

definition evaluatePreconditions :: "'rt runtime \<Rightarrow> 'rt \<Rightarrow> 'rt actionDef \<Rightarrow> preconditions_result" where
  "evaluatePreconditions ops rt actionDef =
     (let blocked = (case ad_preconditions actionDef of
                       None \<Rightarrow> []
                     | Some ps \<Rightarrow> preconditionLoop ops rt ps [])
      in \<lparr>canExecute = (blocked = []), blockedReasons = blocked\<rparr>)"

record ActionResultResponse =
  ar_success :: bool
  ar_errors :: "ActionErrorResponse list option"
  ar_effects :: "EffectResultResponse list option"

text \<open>The payloads the action resolver publishes.\<close>

datatype event =
    DomainChange string int "string list" jsval
  | ActionExecuted string jsval ActionResultResponse int

text \<open>
  The request context: the runtime's methods, the optional subscription engine (whose
  \<open>publish\<close> may reject), the domain id, and the clock, \<open>ctx_now k\<close> being what the
  \<open>k\<close>-th call of \<open>Date.now()\<close> returns.
\<close>

record ('rt, 'ps) request_context =
  ctx_runtime :: "'rt runtime"
  ctx_pubsub :: "(string \<Rightarrow> event \<Rightarrow> 'ps \<Rightarrow> 'ps \<times> exn option) option"
  ctx_domainId :: string
  ctx_now :: "nat \<Rightarrow> int"

text \<open>
  What one call of the resolver leaves: its response, the runtime and engine states, and
  how many times it invoked \<open>executeEffect\<close>.
\<close>

record ('rt, 'ps) resolved =
  response :: ActionResultResponse
  runtime_after :: 'rt
  pubsub_after :: 'ps
  interpreterCalls :: nat

definition getDomainChangeTrigger :: "string \<Rightarrow> string" where
  "getDomainChangeTrigger domainId = domainId @ '':changed''"

definition getFieldChangeTrigger :: "string \<Rightarrow> string \<Rightarrow> string" where
  "getFieldChangeTrigger domainId path = domainId @ '':field:'' @ path"

definition getActionTrigger :: "string \<Rightarrow> string \<Rightarrow> string" where
  "getActionTrigger domainId actionId = domainId @ '':action:'' @ actionId"

text \<open>The outer \<open>catch\<close> of the resolver.\<close>

definition actionError :: "exn \<Rightarrow> ActionResultResponse" where
  "actionError e =
     \<lparr>ar_success = False,
      ar_errors = Some [\<lparr>ae_code = ''ACTION_ERROR'', ae_message = errorMessage e\<rparr>],
      ar_effects = None\<rparr>"

text \<open>The early return on blocked preconditions.\<close>

definition preconditionFailed :: "string list \<Rightarrow> ActionResultResponse" where
  "preconditionFailed reasons =
     \<lparr>ar_success = False,
      ar_errors = Some (map (\<lambda>reason. \<lparr>ae_code = ''PRECONDITION_FAILED'', ae_message = reason\<rparr>) reasons),
      ar_effects = None\<rparr>"

text \<open>
  \<open>if (actionDef.effect) { try { ... await executeEffect(...) ... } catch { ... } }\<close>:
  the local \<open>effects\<close> and \<open>errors\<close> arrays, the runtime, and the number of calls made.
\<close>

definition runEffect :: "(jsnum \<Rightarrow> string) \<Rightarrow> 'rt runtime \<Rightarrow> 'rt actionDef \<Rightarrow> jsval \<Rightarrow> 'rt \<Rightarrow>
    EffectResultResponse list \<times> ActionErrorResponse list \<times> 'rt \<times> nat" where
  "runEffect ns ops actionDef input rt =
     (case ad_effect actionDef of
        None \<Rightarrow> ([], [], rt, 0)
      | Some effect \<Rightarrow>
          (case executeEffect ns ops effect input rt of
             Inl e \<Rightarrow> ([], [\<lparr>ae_code = ''EFFECT_ERROR'', ae_message = errorMessage e\<rparr>], rt, 1)
           | Inr effectResult \<Rightarrow>
               (if success effectResult
                then (effects effectResult, [], after effectResult, 1)
                else ([], errors effectResult, after effectResult, 1))))"

text \<open>\<open>xs.length > 0 ? xs : undefined\<close>\<close>

definition nonEmpty :: "'a list \<Rightarrow> 'a list option" where
  "nonEmpty xs = (if xs = [] then None else Some xs)"

text \<open>
  The two publications after a successful action; an exception on the way (from
  \<open>getSnapshot\<close> or from a rejected \<open>publish\<close>) goes to the outer \<open>catch\<close>.
\<close>

definition publishAction :: "('rt, 'ps) request_context \<Rightarrow> string \<Rightarrow> jsval \<Rightarrow> ActionResultResponse \<Rightarrow> 'rt \<Rightarrow> 'ps \<Rightarrow> 'ps \<times> exn option" where
  "publishAction ctx actionId input result rt ps =
     (case ctx_pubsub ctx of
        None \<Rightarrow> (ps, None)
      | Some publish \<Rightarrow>
          (if \<not> ar_success result then (ps, None)
           else
             (case rt_getSnapshot (ctx_runtime ctx) rt of
                Inl e \<Rightarrow> (ps, Some e)
              | Inr snapshot \<Rightarrow>
                  (case publish (getDomainChangeTrigger (ctx_domainId ctx))
                          (DomainChange ''ACTION_EXECUTED'' (ctx_now ctx 0) [] snapshot) ps of
                     (ps', Some e) \<Rightarrow> (ps', Some e)
                   | (ps', None) \<Rightarrow>
                       publish (getActionTrigger (ctx_domainId ctx) actionId)
                         (ActionExecuted actionId input result (ctx_now ctx 1)) ps'))))"

text \<open>\<open>createActionResolver(actionId, actionDef)\<close>, applied to \<open>args.input\<close> and the context.\<close>

definition createActionResolver :: "(jsnum \<Rightarrow> string) \<Rightarrow> string \<Rightarrow> 'rt actionDef \<Rightarrow> jsval \<Rightarrow> ('rt, 'ps) request_context \<Rightarrow> 'rt \<Rightarrow> 'ps \<Rightarrow> ('rt, 'ps) resolved" where
  "createActionResolver ns actionId actionDef input ctx rt ps =
     (let preconditions = evaluatePreconditions (ctx_runtime ctx) rt actionDef in
      if \<not> canExecute preconditions
      then \<lparr>response = preconditionFailed (blockedReasons preconditions),
            runtime_after = rt, pubsub_after = ps, interpreterCalls = 0\<rparr>
      else
        (case runEffect ns (ctx_runtime ctx) actionDef input rt of
           (effs, errs, rt', calls) \<Rightarrow>
             (let result = \<lparr>ar_success = (errs = []), ar_errors = nonEmpty errs, ar_effects = nonEmpty effs\<rparr>
              in (case publishAction ctx actionId input result rt' ps of
                    (ps', Some e) \<Rightarrow>
                      \<lparr>response = actionError e, runtime_after = rt', pubsub_after = ps',
                       interpreterCalls = calls\<rparr>
                  | (ps', None) \<Rightarrow>
                      \<lparr>response = result, runtime_after = rt', pubsub_after = ps',
                       interpreterCalls = calls\<rparr>))))"


section \<open>The subscription engine (SimplePubSub)\<close>

text \<open>
  A callback is a function object, and the engine keeps callbacks in a \<open>Set\<close>, which
  compares them by identity: a function a caller passed to \<open>subscribe\<close>, known by a
  number, or the closure \<open>(payload) => pushValue(payload)\<close> that \<open>asyncIterator\<close>
  makes for the \<open>j\<close>-th trigger of its \<open>k\<close>-th iterator.
\<close>

datatype callback = UserCallback nat | PushValue nat nat

record IteratorResult =
  ir_value :: jsval
  ir_done :: bool

text \<open>
  The variables one call of \<open>asyncIterator\<close> closes over. A resolver in \<open>pullQueue\<close>
  is the \<open>resolve\<close> function of a promise, known by the promise's number.
\<close>

record iterator =
  pullQueue :: "nat list"
  pushQueue :: "jsval list"
  listening :: bool
  it_subscriptionIds :: "nat list"

text \<open>
  The engine's three fields, and around them what its methods act on: the iterators made
  so far, the promises \<open>next\<close> has returned and what each was resolved with, the pending
  \<open>then\<close> jobs of \<open>asyncIterator\<close> (iterator and id), the calls user callbacks have
  received, and what \<open>console.error\<close> was given. A \<open>Set\<close> is the list of its
  members in insertion order.
\<close>

record pubsub =
  subscriptions :: "string \<Rightarrow> callback list option"
  subscriptionIds :: "nat \<Rightarrow> (string \<times> callback) option"
  nextId :: nat
  iterators :: "nat \<Rightarrow> iterator option"
  nextIterator :: nat
  promises :: "nat \<Rightarrow> IteratorResult option"
  nextPromise :: nat
  jobs :: "(nat \<times> nat) list"
  invoked :: "(nat \<times> jsval) list"
  console :: "(string \<times> exn) list"

text \<open>\<open>new SimplePubSub()\<close>, with nothing around it yet.\<close>

definition newPubSub :: pubsub where
  "newPubSub =
     \<lparr>subscriptions = (\<lambda>t. None), subscriptionIds = (\<lambda>i. None), nextId = 1,
      iterators = (\<lambda>k. None), nextIterator = 0, promises = (\<lambda>p. None), nextPromise = 0,
      jobs = [], invoked = [], console = []\<rparr>"

text \<open>Calling a resolver: a promise already resolved stays as it is.\<close>

definition resolve :: "nat \<Rightarrow> IteratorResult \<Rightarrow> pubsub \<Rightarrow> pubsub" where
  "resolve p r w = (if promises w p = None then w\<lparr>promises := (promises w)(p \<mapsto> r)\<rparr> else w)"

text \<open>\<open>pushValue\<close> of iterator \<open>k\<close>.\<close>

definition pushValue :: "nat \<Rightarrow> jsval \<Rightarrow> pubsub \<Rightarrow> pubsub" where
  "pushValue k v w =
     (case iterators w k of
        None \<Rightarrow> w
      | Some it \<Rightarrow>
          (case pullQueue it of
             resolver # rest \<Rightarrow>
               resolve resolver \<lparr>ir_value = v, ir_done = False\<rparr>
                 (w\<lparr>iterators := (iterators w)(k \<mapsto> it\<lparr>pullQueue := rest\<rparr>)\<rparr>)
           | [] \<Rightarrow> w\<lparr>iterators := (iterators w)(k \<mapsto> it\<lparr>pushQueue := pushQueue it @ [v]\<rparr>)\<rparr>))"

text \<open>
  \<open>pullValue\<close> of iterator \<open>k\<close>: the new promise and the state its executor leaves.
  \<open>pushQueue.shift()\<close> removes the first entry, and yields \<open>undefined\<close> on an empty
  queue.
\<close>

definition pullValue :: "nat \<Rightarrow> pubsub \<Rightarrow> nat \<times> pubsub" where
  "pullValue k w =
     (let p = nextPromise w; w1 = w\<lparr>nextPromise := p + 1\<rparr> in
      case iterators w1 k of
        None \<Rightarrow> (p, w1)
      | Some it \<Rightarrow>
          (let v = (case pushQueue it of [] \<Rightarrow> JUndefined | x # xs \<Rightarrow> x);
               it1 = it\<lparr>pushQueue := tl (pushQueue it)\<rparr>;
               w2 = w1\<lparr>iterators := (iterators w1)(k \<mapsto> it1)\<rparr>
           in if v \<noteq> JUndefined then (p, resolve p \<lparr>ir_value = v, ir_done = False\<rparr> w2)
              else if \<not> listening it1 then (p, resolve p \<lparr>ir_value = JUndefined, ir_done = True\<rparr> w2)
              else (p, w2\<lparr>iterators := (iterators w2)(k \<mapsto> it1\<lparr>pullQueue := pullQueue it1 @ [p]\<rparr>)\<rparr>)))"

text \<open>
  One callback of a \<open>publish\<close>, inside its \<open>try\<close>: a user callback is called (and may
  throw, as \<open>throws\<close> says); an iterator's closure pushes the payload. Callbacks do not
  call back into the engine.
\<close>

fun invoke :: "(nat \<Rightarrow> jsval \<Rightarrow> exn option) \<Rightarrow> callback \<Rightarrow> jsval \<Rightarrow> pubsub \<Rightarrow> pubsub \<times> exn option" where
  "invoke throws (UserCallback u) payload w = (w\<lparr>invoked := invoked w @ [(u, payload)]\<rparr>, throws u payload)"
| "invoke throws (PushValue k j) payload w = (pushValue k payload w, None)"

text \<open>The \<open>for\<close> loop of \<open>publish\<close> with its \<open>try\<close>/\<open>catch\<close>.\<close>

fun deliver :: "(nat \<Rightarrow> jsval \<Rightarrow> exn option) \<Rightarrow> string \<Rightarrow> jsval \<Rightarrow> callback list \<Rightarrow> pubsub \<Rightarrow> pubsub" where
  "deliver throws triggerName payload [] w = w"
| "deliver throws triggerName payload (cb # rest) w =
     deliver throws triggerName payload rest
       (case invoke throws cb payload w of
          (w', None) \<Rightarrow> w'
        | (w', Some e) \<Rightarrow> w'\<lparr>console := console w' @ [(triggerName, e)]\<rparr>)"

definition publish :: "(nat \<Rightarrow> jsval \<Rightarrow> exn option) \<Rightarrow> string \<Rightarrow> jsval \<Rightarrow> pubsub \<Rightarrow> pubsub" where
  "publish throws triggerName payload w =
     (case subscriptions w triggerName of
        None \<Rightarrow> w
      | Some subscribers \<Rightarrow> deliver throws triggerName payload subscribers w)"

text \<open>\<open>set.add(x)\<close>\<close>

definition setAdd :: "'a \<Rightarrow> 'a list \<Rightarrow> 'a list" where
  "setAdd x xs = (if x \<in> set xs then xs else xs @ [x])"

definition subscribe :: "string \<Rightarrow> callback \<Rightarrow> pubsub \<Rightarrow> nat \<times> pubsub" where
  "subscribe triggerName onMessage w =
     (let subscribers = (case subscriptions w triggerName of None \<Rightarrow> [] | Some s \<Rightarrow> s);
          sid = nextId w
      in (sid, w\<lparr>subscriptions := (subscriptions w)(triggerName \<mapsto> setAdd onMessage subscribers),
               nextId := sid + 1,
               subscriptionIds := (subscriptionIds w)(sid \<mapsto> (triggerName, onMessage))\<rparr>))"

definition unsubscribe :: "nat \<Rightarrow> pubsub \<Rightarrow> pubsub" where
  "unsubscribe subId w =
     (case subscriptionIds w subId of
        None \<Rightarrow> w
      | Some (trigger, cb) \<Rightarrow>
          (let w1 = (case subscriptions w trigger of
                       None \<Rightarrow> w
                     | Some subscribers \<Rightarrow>
                         (let remaining = removeAll cb subscribers in
                          if remaining = []
                          then w\<lparr>subscriptions := (subscriptions w)(trigger := None)\<rparr>
                          else w\<lparr>subscriptions := (subscriptions w)(trigger \<mapsto> remaining)\<rparr>))
           in w1\<lparr>subscriptionIds := (subscriptionIds w1)(subId := None)\<rparr>))"

text \<open>
  The loop of \<open>asyncIterator\<close> over \<open>triggerList\<close>: \<open>subscribe\<close> registers the closure
  at once, and the \<open>then\<close> that records the id is a job for later.
\<close>

fun subscribeAll :: "nat \<Rightarrow> nat \<Rightarrow> string list \<Rightarrow> pubsub \<Rightarrow> pubsub" where
  "subscribeAll k j [] w = w"
| "subscribeAll k j (trigger # rest) w =
     (case subscribe trigger (PushValue k j) w of
        (sid, w') \<Rightarrow> subscribeAll k (j + 1) rest (w'\<lparr>jobs := jobs w' @ [(k, sid)]\<rparr>))"

definition asyncIterator :: "string list \<Rightarrow> pubsub \<Rightarrow> nat \<times> pubsub" where
  "asyncIterator triggerList w =
     (let k = nextIterator w;
          w1 = w\<lparr>iterators := (iterators w)(k \<mapsto> \<lparr>pullQueue = [], pushQueue = [], listening = True,
                                                   it_subscriptionIds = []\<rparr>),
                 nextIterator := k + 1\<rparr>
      in (k, subscribeAll k 0 triggerList w1))"

text \<open>The pending jobs run, in order, when the running code has returned: \<open>subscriptionIds.push(id)\<close>.\<close>

fun runJobs :: "(nat \<times> nat) list \<Rightarrow> pubsub \<Rightarrow> pubsub" where
  "runJobs [] w = w"
| "runJobs ((k, sid) # rest) w =
     runJobs rest
       (case iterators w k of
          None \<Rightarrow> w
        | Some it \<Rightarrow> w\<lparr>iterators := (iterators w)(k \<mapsto> it\<lparr>it_subscriptionIds := it_subscriptionIds it @ [sid]\<rparr>)\<rparr>)"

definition runMicrotasks :: "pubsub \<Rightarrow> pubsub" where
  "runMicrotasks w = runJobs (jobs w) (w\<lparr>jobs := []\<rparr>)"

text \<open>\<open>iterator.next()\<close>\<close>

definition iteratorNext :: "nat \<Rightarrow> pubsub \<Rightarrow> nat \<times> pubsub" where
  "iteratorNext k w = pullValue k w"

text \<open>The two loops of \<open>iterator.return()\<close>.\<close>

fun unsubscribeAll :: "nat list \<Rightarrow> pubsub \<Rightarrow> pubsub" where
  "unsubscribeAll [] w = w"
| "unsubscribeAll (sid # ids) w = unsubscribeAll ids (unsubscribe sid w)"

fun resolveAll :: "nat list \<Rightarrow> pubsub \<Rightarrow> pubsub" where
  "resolveAll [] w = w"
| "resolveAll (resolver # rest) w = resolveAll rest (resolve resolver \<lparr>ir_value = JUndefined, ir_done = True\<rparr> w)"

text \<open>
  \<open>iterator.return()\<close>: the state it leaves and the result its promise is resolved
  with. \<open>pullQueue\<close> is read, not emptied.
\<close>

definition iteratorReturn :: "nat \<Rightarrow> pubsub \<Rightarrow> IteratorResult \<times> pubsub" where
  "iteratorReturn k w =
     (case iterators w k of
        None \<Rightarrow> (\<lparr>ir_value = JUndefined, ir_done = True\<rparr>, w)
      | Some it \<Rightarrow>
          (let w1 = w\<lparr>iterators := (iterators w)(k \<mapsto> it\<lparr>listening := False\<rparr>)\<rparr>;
               w2 = unsubscribeAll (it_subscriptionIds it) w1;
               w3 = resolveAll (pullQueue it) w2
           in (\<lparr>ir_value = JUndefined, ir_done = True\<rparr>, w3)))"

text \<open>\<open>iterator.throw(error)\<close>: the state it leaves and the rejection of its promise.\<close>

definition iteratorThrow :: "nat \<Rightarrow> exn \<Rightarrow> pubsub \<Rightarrow> exn \<times> pubsub" where
  "iteratorThrow k error w =
     (case iterators w k of
        None \<Rightarrow> (error, w)
      | Some it \<Rightarrow>
          (error, unsubscribeAll (it_subscriptionIds it)
                    (w\<lparr>iterators := (iterators w)(k \<mapsto> it\<lparr>listening := False\<rparr>)\<rparr>)))"

text \<open>\<open>clear()\<close>\<close>

definition clear :: "pubsub \<Rightarrow> pubsub" where
  "clear w = w\<lparr>subscriptions := (\<lambda>t. None), subscriptionIds := (\<lambda>i. None), nextId := 1\<rparr>"

text \<open>Several payloads published to one trigger, one \<open>publish\<close> after the other.\<close>

fun publishMany :: "(nat \<Rightarrow> jsval \<Rightarrow> exn option) \<Rightarrow> string \<Rightarrow> jsval list \<Rightarrow> pubsub \<Rightarrow> pubsub" where
  "publishMany throws triggerName [] w = w"
| "publishMany throws triggerName (payload # rest) w =
     publishMany throws triggerName rest (publish throws triggerName payload w)"

text \<open>The user callbacks among the subscribers of a trigger, in the order of the \<open>Set\<close>.\<close>

fun userCallbacks :: "callback list \<Rightarrow> nat list" where
  "userCallbacks [] = []"
| "userCallbacks (UserCallback u # rest) = u # userCallbacks rest"
| "userCallbacks (PushValue k j # rest) = userCallbacks rest"

section \<open>The engine as a state machine\<close>

text \<open>
  What the code around an engine can do to it, one call at a time: the methods of
  \<open>SimplePubSub\<close> (a caller subscribes functions of its own), the methods of an
  iterator it returned, and the point where the pending jobs run.
\<close>

datatype op =
    Publish string jsval
  | Subscribe string nat
  | Unsubscribe nat
  | AsyncIterator "string list"
  | Microtasks
  | Next nat
  | Return nat
  | Throw nat exn
  | Clear

fun step :: "(nat \<Rightarrow> jsval \<Rightarrow> exn option) \<Rightarrow> op \<Rightarrow> pubsub \<Rightarrow> pubsub" where
  "step throws (Publish t v) w = publish throws t v w"
| "step throws (Subscribe t u) w = snd (subscribe t (UserCallback u) w)"
| "step throws (Unsubscribe i) w = unsubscribe i w"
| "step throws (AsyncIterator ts) w = snd (asyncIterator ts w)"
| "step throws Microtasks w = runMicrotasks w"
| "step throws (Next k) w = snd (iteratorNext k w)"
| "step throws (Return k) w = snd (iteratorReturn k w)"
| "step throws (Throw k e) w = snd (iteratorThrow k e w)"
| "step throws Clear w = clear w"

text \<open>A sequence of such calls.\<close>

fun run :: "(nat \<Rightarrow> jsval \<Rightarrow> exn option) \<Rightarrow> op list \<Rightarrow> pubsub \<Rightarrow> pubsub" where
  "run throws [] w = w"
| "run throws (x # xs) w = run throws xs (step throws x w)"

text \<open>
  What holds of every state the engine can be in: numbers not yet handed out (promises,
  iterators, subscription ids) are unused, a queued resolver belongs to a promise that
  exists, and a subscribed closure or a pending job belongs to an iterator that exists.
\<close>

definition wellFormed :: "pubsub \<Rightarrow> bool" where
  "wellFormed w =
     ((\<forall>p. nextPromise w \<le> p \<longrightarrow> promises w p = None)
      \<and> (\<forall>k it p. iterators w k = Some it \<longrightarrow> p \<in> set (pullQueue it) \<longrightarrow> p < nextPromise w)
      \<and> (\<forall>k. nextIterator w \<le> k \<longrightarrow> iterators w k = None)
      \<and> (\<forall>t subs k j. subscriptions w t = Some subs \<longrightarrow> PushValue k j \<in> set subs \<longrightarrow> k < nextIterator w)
      \<and> (\<forall>i. nextId w \<le> i \<longrightarrow> subscriptionIds w i = None)
      \<and> (\<forall>k i. (k, i) \<in> set (jobs w) \<longrightarrow> k < nextIterator w))"

text \<open>What \<open>pushValue\<close> does to the queues of its iterator.\<close>

definition pushed :: "jsval \<Rightarrow> iterator \<Rightarrow> iterator" where
  "pushed v it = (case pullQueue it of [] \<Rightarrow> it\<lparr>pushQueue := pushQueue it @ [v]\<rparr> | r # rest \<Rightarrow> it\<lparr>pullQueue := rest\<rparr>)"

text \<open>The closures of iterator \<open>k\<close> among callbacks.\<close>

fun isClosureOf :: "nat \<Rightarrow> callback \<Rightarrow> bool" where
  "isClosureOf k (PushValue k' j) = (k' = k)"
| "isClosureOf k (UserCallback u) = False"


text \<open>The subscription ids iterator \<open>k\<close> has recorded.\<close>

definition idsOf :: "pubsub \<Rightarrow> nat \<Rightarrow> nat list option" where
  "idsOf w k = map_option it_subscriptionIds (iterators w k)"


text \<open>The same, for a list of jobs still to run.\<close>

definition trackedBy :: "(nat \<times> nat) list \<Rightarrow> pubsub \<Rightarrow> bool" where
  "trackedBy js w =
     ((\<forall>t subs k j. subscriptions w t = Some subs \<longrightarrow> PushValue k j \<in> set subs \<longrightarrow>
         (\<exists>i. subscriptionIds w i = Some (t, PushValue k j)
              \<and> ((k, i) \<in> set js \<or> (\<exists>ids. idsOf w k = Some ids \<and> i \<in> set ids))))
      \<and> (\<forall>k i. (k, i) \<in> set js \<longrightarrow> idsOf w k \<noteq> None))"

text \<open>Some closure of iterator \<open>k\<close> is subscribed to some trigger.\<close>

definition registered :: "nat \<Rightarrow> pubsub \<Rightarrow> bool" where
  "registered k w = (\<exists>t subs j. subscriptions w t = Some subs \<and> PushValue k j \<in> set subs)"








section \<open>The type mapper (Zod to GraphQL)\<close>

text \<open>
  A Zod schema node as the mapper reads it: the \<open>description\<close> of its \<open>_def\<close> and, by
  \<open>typeName\<close>, the one field of \<open>_def\<close> the mapper looks at, absent (\<open>None\<close>) when the
  field is undefined: the \<open>checks\<close> of a number (their kinds), the \<open>values\<close> of an enum,
  the \<open>type\<close> of an array, the entries of the object that \<open>shape()\<close> returns, the \<open>options\<close>
  of a union, the \<open>value\<close> of a literal, the \<open>innerType\<close> of a wrapper. \<open>ZodOther\<close> is a
  node with any other type name, or with none.
\<close>

datatype zod = Schema "string option" zkind
and zkind =
    ZodString
  | ZodNumber "string list option"
  | ZodBoolean
  | ZodDate
  | ZodEnum "string list option"
  | ZodNativeEnum "(string \<times> jsval) list option"
  | ZodArray "zod option"
  | ZodObject "(string \<times> zod) list option"
  | ZodUnion "zod list option"
  | ZodDiscriminatedUnion "zod list option"
  | ZodLiteral jsval
  | ZodAny
  | ZodUnknown
  | ZodRecord
  | ZodOptional "zod option"
  | ZodNullable "zod option"
  | ZodDefault "zod option"
  | ZodOther "string option"

fun getZodDescription :: "zod \<Rightarrow> string option" where
  "getZodDescription (Schema description kind) = description"

fun kindOf :: "zod \<Rightarrow> zkind" where
  "kindOf (Schema description kind) = kind"

fun getZodTypeName :: "zod \<Rightarrow> string" where
  "getZodTypeName (Schema d ZodString) = ''ZodString''"
| "getZodTypeName (Schema d (ZodNumber checks)) = ''ZodNumber''"
| "getZodTypeName (Schema d ZodBoolean) = ''ZodBoolean''"
| "getZodTypeName (Schema d ZodDate) = ''ZodDate''"
| "getZodTypeName (Schema d (ZodEnum vs)) = ''ZodEnum''"
| "getZodTypeName (Schema d (ZodNativeEnum vs)) = ''ZodNativeEnum''"
| "getZodTypeName (Schema d (ZodArray el)) = ''ZodArray''"
| "getZodTypeName (Schema d (ZodObject shape)) = ''ZodObject''"
| "getZodTypeName (Schema d (ZodUnion options)) = ''ZodUnion''"
| "getZodTypeName (Schema d (ZodDiscriminatedUnion options)) = ''ZodDiscriminatedUnion''"
| "getZodTypeName (Schema d (ZodLiteral v)) = ''ZodLiteral''"
| "getZodTypeName (Schema d ZodAny) = ''ZodAny''"
| "getZodTypeName (Schema d ZodUnknown) = ''ZodUnknown''"
| "getZodTypeName (Schema d ZodRecord) = ''ZodRecord''"
| "getZodTypeName (Schema d (ZodOptional inner)) = ''ZodOptional''"
| "getZodTypeName (Schema d (ZodNullable inner)) = ''ZodNullable''"
| "getZodTypeName (Schema d (ZodDefault inner)) = ''ZodDefault''"
| "getZodTypeName (Schema d (ZodOther None)) = ''ZodUnknown''"
| "getZodTypeName (Schema d (ZodOther (Some n))) = n"

fun unwrapZodType :: "zod \<Rightarrow> zod \<times> bool" where
  "unwrapZodType (Schema d (ZodOptional (Some innerType))) = (fst (unwrapZodType innerType), True)"
| "unwrapZodType (Schema d (ZodNullable (Some innerType))) = (fst (unwrapZodType innerType), True)"
| "unwrapZodType (Schema d (ZodDefault (Some innerType))) = unwrapZodType innerType"
| "unwrapZodType schema = (schema, False)"

text \<open>
  A GraphQL type. The enum, object and input object types, which \<open>new\<close> creates, live in a
  store and are denoted by their reference: two of them are the same instance exactly when
  the references are equal. The \<open>fields\<close> of an object type are what the constructor was
  given, a thunk (the shape and the name the closure captured) or a field map, until
  \<open>getFields\<close> defines them. A field is its type and its description.
\<close>

datatype gtype =
    GraphQLString | GraphQLInt | GraphQLFloat | GraphQLBoolean | GraphQLJSON | GraphQLDateTime
  | GraphQLList gtype
  | GraphQLNonNull gtype
  | Named nat

type_synonym field = "gtype \<times> string option"

datatype fields =
    Thunk "(string \<times> zod) list" string
  | Config "(string \<times> field) list"
  | Fields "(string \<times> field) list"

datatype named =
    EnumType string "(string \<times> jsval) list"
  | ObjectType string fields
  | InputObjectType string fields

text \<open>
  What the module takes from its host and from graphql-js, whose code is not part of this
  repository: \<open>isNaN(Number(key))\<close>; \<open>String.prototype.toUpperCase\<close>; and, for each
  constructor of graphql-js and for the definition of the field map that \<open>getFields()\<close> makes
  from the \<open>fields\<close> of a type of the given name, the exception it throws, if it throws
  (graphql-js rejects there, from version 16 on, a name that is not a GraphQL name).
\<close>

record host =
  isNaNNumber :: "string \<Rightarrow> bool"
  toUpperCaseOf :: "string \<Rightarrow> string"
  newGraphQLEnumType :: "string \<Rightarrow> (string \<times> jsval) list \<Rightarrow> exn option"
  newGraphQLObjectType :: "string \<Rightarrow> exn option"
  newGraphQLInputObjectType :: "string \<Rightarrow> exn option"
  defineFieldMap :: "string \<Rightarrow> (string \<times> field) list \<Rightarrow> exn option"
  defineInputFieldMap :: "string \<Rightarrow> (string \<times> field) list \<Rightarrow> exn option"

text \<open>
  The module-level \<open>typeCache\<close>, together with the store of the instances created so far.
  A call into the mapper returns a value or throws (\<open>Inl\<close>), and in both cases leaves the
  cache and the store as it has changed them.
\<close>

record mapper =
  typeCache :: "string \<Rightarrow> nat option"
  types :: "nat \<Rightarrow> named option"
  nextType :: nat

definition clearTypeCache :: "mapper \<Rightarrow> mapper" where
  "clearTypeCache s = s\<lparr>typeCache := (\<lambda>key. None)\<rparr>"

definition allocate :: "named \<Rightarrow> mapper \<Rightarrow> nat \<times> mapper" where
  "allocate t s = (nextType s, s\<lparr>types := (types s)(nextType s \<mapsto> t), nextType := nextType s + 1\<rparr>)"

text \<open>
  \<open>new\<close> of a named type: the constructor throws, or the instance is created. And
  \<open>typeCache.set(cacheKey, t)\<close> after it, which a throw skips.
\<close>

definition construct :: "exn option \<Rightarrow> named \<Rightarrow> mapper \<Rightarrow> (exn + nat) \<times> mapper" where
  "construct thrown t s =
     (case thrown of
        Some e \<Rightarrow> (Inl e, s)
      | None \<Rightarrow> (case allocate t s of (r, s') \<Rightarrow> (Inr r, s')))"

definition cacheSet :: "string \<Rightarrow> (exn + nat) \<times> mapper \<Rightarrow> (exn + nat) \<times> mapper" where
  "cacheSet cacheKey a =
     (case a of
        (Inl e, s) \<Rightarrow> (Inl e, s)
      | (Inr r, s) \<Rightarrow> (Inr r, s\<lparr>typeCache := (typeCache s)(cacheKey \<mapsto> r)\<rparr>))"

text \<open>
  \<open>Object.fromEntries\<close>: a later entry replaces an earlier one of the same key, in place.
\<close>

fun fromEntries :: "(string \<times> 'a) list \<Rightarrow> (string \<times> 'a) list \<Rightarrow> (string \<times> 'a) list" where
  "fromEntries [] obj = obj"
| "fromEntries ((k, v) # rest) obj = fromEntries rest (AList.update k v obj)"

definition isIntegerSchema :: "string list option \<Rightarrow> bool" where
  "isIntegerSchema checks = (case checks of None \<Rightarrow> False | Some cs \<Rightarrow> ''int'' \<in> set cs)"

definition mapZodEnumToGraphQL :: "host \<Rightarrow> string list option \<Rightarrow> string \<Rightarrow> mapper \<Rightarrow> (exn + nat) \<times> mapper" where
  "mapZodEnumToGraphQL h values name s =
     (case typeCache s (''enum:'' @ name) of
        Some cached \<Rightarrow> (Inr cached, s)
      | None \<Rightarrow>
          (let enumValues =
                 fromEntries
                   (map (\<lambda>val. (sanitizeEnumValue val, JStr val)) (case values of None \<Rightarrow> [] | Some vs \<Rightarrow> vs))
                   []
           in cacheSet (''enum:'' @ name)
                (construct (newGraphQLEnumType h (sanitizeTypeName name) enumValues)
                   (EnumType (sanitizeTypeName name) enumValues) s)))"

text \<open>
  The filter of the native enum: \<open>keyIsNaN key\<close> is the host's \<open>isNaN(Number(key))\<close>.
\<close>

fun isNativeEntry :: "(string \<Rightarrow> bool) \<Rightarrow> string \<times> jsval \<Rightarrow> bool" where
  "isNativeEntry keyIsNaN (key, JStr v) = True"
| "isNativeEntry keyIsNaN (key, JNum n) = keyIsNaN key"
| "isNativeEntry keyIsNaN (key, v) = False"

definition mapZodNativeEnumToGraphQL ::
    "host \<Rightarrow> (string \<times> jsval) list option \<Rightarrow> string \<Rightarrow> mapper \<Rightarrow> (exn + nat) \<times> mapper" where
  "mapZodNativeEnumToGraphQL h values name s =
     (case typeCache s (''nativeEnum:'' @ name) of
        Some cached \<Rightarrow> (Inr cached, s)
      | None \<Rightarrow>
          (let enumValues =
                 fromEntries
                   (map (\<lambda>(key, v). (sanitizeEnumValue key, v))
                      (filter (isNativeEntry (isNaNNumber h)) (case values of None \<Rightarrow> [] | Some es \<Rightarrow> es)))
                   []
           in cacheSet (''nativeEnum:'' @ name)
                (construct (newGraphQLEnumType h (sanitizeTypeName name) enumValues)
                   (EnumType (sanitizeTypeName name) enumValues) s)))"

definition mapZodObjectToGraphQLOutput ::
    "host \<Rightarrow> (string \<times> zod) list option \<Rightarrow> string \<Rightarrow> mapper \<Rightarrow> (exn + nat) \<times> mapper" where
  "mapZodObjectToGraphQLOutput h shapeFunc name s =
     (case typeCache s (''object:'' @ name) of
        Some cached \<Rightarrow> (Inr cached, s)
      | None \<Rightarrow>
          (case shapeFunc of
             None \<Rightarrow>
               construct (newGraphQLObjectType h (sanitizeTypeName name))
                 (ObjectType (sanitizeTypeName name) (Config [(''_empty'', (GraphQLBoolean, None))])) s
           | Some shape \<Rightarrow>
               cacheSet (''object:'' @ name)
                 (construct (newGraphQLObjectType h (sanitizeTypeName name))
                    (ObjectType (sanitizeTypeName name) (Thunk shape name)) s)))"

definition mapZodObjectToGraphQLInput ::
    "host \<Rightarrow> (string \<times> zod) list option \<Rightarrow> string \<Rightarrow> mapper \<Rightarrow> (exn + nat) \<times> mapper" where
  "mapZodObjectToGraphQLInput h shapeFunc name s =
     (let inputName = name @ ''Input'' in
      case typeCache s (''inputObject:'' @ inputName) of
        Some cached \<Rightarrow> (Inr cached, s)
      | None \<Rightarrow>
          (case shapeFunc of
             None \<Rightarrow>
               construct (newGraphQLInputObjectType h (sanitizeTypeName inputName))
                 (InputObjectType (sanitizeTypeName inputName) (Config [(''_empty'', (GraphQLBoolean, None))])) s
           | Some shape \<Rightarrow>
               cacheSet (''inputObject:'' @ inputName)
                 (construct (newGraphQLInputObjectType h (sanitizeTypeName inputName))
                    (InputObjectType (sanitizeTypeName inputName) (Thunk shape inputName)) s)))"

fun isIntegerNumber :: "jsnum \<Rightarrow> bool" where
  "isIntegerNumber (Fin r) = (r \<in> \<int>)"
| "isIntegerNumber n = False"

fun mapZodLiteralToGraphQL :: "jsval \<Rightarrow> gtype" where
  "mapZodLiteralToGraphQL (JStr v) = GraphQLString"
| "mapZodLiteralToGraphQL (JNum n) = (if isIntegerNumber n then GraphQLInt else GraphQLFloat)"
| "mapZodLiteralToGraphQL (JBool b) = GraphQLBoolean"
| "mapZodLiteralToGraphQL v = GraphQLJSON"

text \<open>
  What is done with the value a call returned, and not done when it threw: the instance as a
  type, \<open>isOptional ? baseType : new GraphQLNonNull(baseType)\<close>, and
  \<open>new GraphQLList(itemType)\<close>.
\<close>

definition asNamed :: "(exn + nat) \<times> mapper \<Rightarrow> (exn + gtype) \<times> mapper" where
  "asNamed a = (case a of (Inl e, s) \<Rightarrow> (Inl e, s) | (Inr r, s) \<Rightarrow> (Inr (Named r), s))"

definition nonNullUnless :: "bool \<Rightarrow> (exn + gtype) \<times> mapper \<Rightarrow> (exn + gtype) \<times> mapper" where
  "nonNullUnless optional a =
     (case a of
        (Inl e, s) \<Rightarrow> (Inl e, s)
      | (Inr baseType, s) \<Rightarrow> (Inr (if optional then baseType else GraphQLNonNull baseType), s))"

definition listOf :: "(exn + gtype) \<times> mapper \<Rightarrow> (exn + gtype) \<times> mapper" where
  "listOf a = (case a of (Inl e, s) \<Rightarrow> (Inl e, s) | (Inr itemType, s) \<Rightarrow> (Inr (GraphQLList itemType), s))"

definition sameKind :: "zod list \<Rightarrow> bool" where
  "sameKind options = (length (remdups (map (\<lambda>opt. getZodTypeName (fst (unwrapZodType opt))) options)) = 1)"

text \<open>
  The two mutually recursive mappers. Unwrapping never enlarges a node, which is what makes
  the recursion through the first option of a union terminate.
\<close>

lemma size_unwrapZodType: "size (fst (unwrapZodType schema)) \<le> size schema"
  by (induction schema rule: unwrapZodType.induct) auto

function mapZodToGraphQLOutput :: "host \<Rightarrow> zod \<Rightarrow> string \<Rightarrow> mapper \<Rightarrow> (exn + gtype) \<times> mapper"
and mapZodToGraphQLOutputBase :: "host \<Rightarrow> zod \<Rightarrow> string \<Rightarrow> mapper \<Rightarrow> (exn + gtype) \<times> mapper"
where
  "mapZodToGraphQLOutput h schema name s =
     nonNullUnless (snd (unwrapZodType schema))
       (mapZodToGraphQLOutputBase h (fst (unwrapZodType schema)) name s)"
| "mapZodToGraphQLOutputBase h (Schema d ZodString) name s = (Inr GraphQLString, s)"
| "mapZodToGraphQLOutputBase h (Schema d (ZodNumber checks)) name s =
     (Inr (if isIntegerSchema checks then GraphQLInt else GraphQLFloat), s)"
| "mapZodToGraphQLOutputBase h (Schema d ZodBoolean) name s = (Inr GraphQLBoolean, s)"
| "mapZodToGraphQLOutputBase h (Schema d ZodDate) name s = (Inr GraphQLDateTime, s)"
| "mapZodToGraphQLOutputBase h (Schema d (ZodEnum values)) name s = asNamed (mapZodEnumToGraphQL h values name s)"
| "mapZodToGraphQLOutputBase h (Schema d (ZodNativeEnum values)) name s =
     asNamed (mapZodNativeEnumToGraphQL h values name s)"
| "mapZodToGraphQLOutputBase h (Schema d (ZodArray None)) name s = (Inr (GraphQLList GraphQLJSON), s)"
| "mapZodToGraphQLOutputBase h (Schema d (ZodArray (Some elementType))) name s =
     listOf (mapZodToGraphQLOutput h elementType (name @ ''Item'') s)"
| "mapZodToGraphQLOutputBase h (Schema d (ZodObject shapeFunc)) name s =
     asNamed (mapZodObjectToGraphQLOutput h shapeFunc name s)"
| "mapZodToGraphQLOutputBase h (Schema d (ZodUnion None)) name s = (Inr GraphQLJSON, s)"
| "mapZodToGraphQLOutputBase h (Schema d (ZodUnion (Some []))) name s = (Inr GraphQLJSON, s)"
| "mapZodToGraphQLOutputBase h (Schema d (ZodUnion (Some (opt # opts)))) name s =
     (if sameKind (opt # opts)
      then mapZodToGraphQLOutputBase h (fst (unwrapZodType opt)) name s
      else (Inr GraphQLJSON, s))"
| "mapZodToGraphQLOutputBase h (Schema d (ZodDiscriminatedUnion None)) name s = (Inr GraphQLJSON, s)"
| "mapZodToGraphQLOutputBase h (Schema d (ZodDiscriminatedUnion (Some []))) name s = (Inr GraphQLJSON, s)"
| "mapZodToGraphQLOutputBase h (Schema d (ZodDiscriminatedUnion (Some (opt # opts)))) name s =
     (if sameKind (opt # opts)
      then mapZodToGraphQLOutputBase h (fst (unwrapZodType opt)) name s
      else (Inr GraphQLJSON, s))"
| "mapZodToGraphQLOutputBase h (Schema d (ZodLiteral v)) name s = (Inr (mapZodLiteralToGraphQL v), s)"
| "mapZodToGraphQLOutputBase h (Schema d ZodAny) name s = (Inr GraphQLJSON, s)"
| "mapZodToGraphQLOutputBase h (Schema d ZodUnknown) name s = (Inr GraphQLJSON, s)"
| "mapZodToGraphQLOutputBase h (Schema d ZodRecord) name s = (Inr GraphQLJSON, s)"
| "mapZodToGraphQLOutputBase h (Schema d (ZodOptional inner)) name s = (Inr GraphQLJSON, s)"
| "mapZodToGraphQLOutputBase h (Schema d (ZodNullable inner)) name s = (Inr GraphQLJSON, s)"
| "mapZodToGraphQLOutputBase h (Schema d (ZodDefault inner)) name s = (Inr GraphQLJSON, s)"
| "mapZodToGraphQLOutputBase h (Schema d (ZodOther n)) name s = (Inr GraphQLJSON, s)"
  by pat_completeness auto
termination
  apply (relation "measure (\<lambda>x. case x of
          Inl (h, schema, name, s) \<Rightarrow> 2 * size schema + 1
        | Inr (h, schema, name, s) \<Rightarrow> 2 * size schema)")
  apply (auto simp: le_imp_less_Suc size_unwrapZodType)
  subgoal for opt opts using size_unwrapZodType[of opt] by linarith
  subgoal for opt opts using size_unwrapZodType[of opt] by linarith
  done

function mapZodToGraphQLInput :: "host \<Rightarrow> zod \<Rightarrow> string \<Rightarrow> mapper \<Rightarrow> (exn + gtype) \<times> mapper"
and mapZodToGraphQLInputBase :: "host \<Rightarrow> zod \<Rightarrow> string \<Rightarrow> mapper \<Rightarrow> (exn + gtype) \<times> mapper"
where
  "mapZodToGraphQLInput h schema name s =
     nonNullUnless (snd (unwrapZodType schema))
       (mapZodToGraphQLInputBase h (fst (unwrapZodType schema)) name s)"
| "mapZodToGraphQLInputBase h (Schema d ZodString) name s = (Inr GraphQLString, s)"
| "mapZodToGraphQLInputBase h (Schema d (ZodNumber checks)) name s =
     (Inr (if isIntegerSchema checks then GraphQLInt else GraphQLFloat), s)"
| "mapZodToGraphQLInputBase h (Schema d ZodBoolean) name s = (Inr GraphQLBoolean, s)"
| "mapZodToGraphQLInputBase h (Schema d ZodDate) name s = (Inr GraphQLDateTime, s)"
| "mapZodToGraphQLInputBase h (Schema d (ZodEnum values)) name s = asNamed (mapZodEnumToGraphQL h values name s)"
| "mapZodToGraphQLInputBase h (Schema d (ZodNativeEnum values)) name s =
     asNamed (mapZodNativeEnumToGraphQL h values name s)"
| "mapZodToGraphQLInputBase h (Schema d (ZodArray None)) name s = (Inr (GraphQLList GraphQLJSON), s)"
| "mapZodToGraphQLInputBase h (Schema d (ZodArray (Some elementType))) name s =
     listOf (mapZodToGraphQLInput h elementType (name @ ''Item'') s)"
| "mapZodToGraphQLInputBase h (Schema d (ZodObject shapeFunc)) name s =
     asNamed (mapZodObjectToGraphQLInput h shapeFunc name s)"
| "mapZodToGraphQLInputBase h (Schema d (ZodLiteral v)) name s = (Inr (mapZodLiteralToGraphQL v), s)"
| "mapZodToGraphQLInputBase h (Schema d (ZodUnion options)) name s = (Inr GraphQLJSON, s)"
| "mapZodToGraphQLInputBase h (Schema d (ZodDiscriminatedUnion options)) name s = (Inr GraphQLJSON, s)"
| "mapZodToGraphQLInputBase h (Schema d ZodAny) name s = (Inr GraphQLJSON, s)"
| "mapZodToGraphQLInputBase h (Schema d ZodUnknown) name s = (Inr GraphQLJSON, s)"
| "mapZodToGraphQLInputBase h (Schema d ZodRecord) name s = (Inr GraphQLJSON, s)"
| "mapZodToGraphQLInputBase h (Schema d (ZodOptional inner)) name s = (Inr GraphQLJSON, s)"
| "mapZodToGraphQLInputBase h (Schema d (ZodNullable inner)) name s = (Inr GraphQLJSON, s)"
| "mapZodToGraphQLInputBase h (Schema d (ZodDefault inner)) name s = (Inr GraphQLJSON, s)"
| "mapZodToGraphQLInputBase h (Schema d (ZodOther n)) name s = (Inr GraphQLJSON, s)"
  by pat_completeness auto
termination
  apply (relation "measure (\<lambda>x. case x of
          Inl (h, schema, name, s) \<Rightarrow> 2 * size schema + 1
        | Inr (h, schema, name, s) \<Rightarrow> 2 * size schema)")
  apply (auto simp: le_imp_less_Suc size_unwrapZodType)
  done

text \<open>
  The assignment \<open>fields[key] = v\<close> to an object literal: it replaces the property in place
  or appends it, except for the key \<open>__proto__\<close>, where it sets the prototype and creates
  no property.
\<close>

definition assign :: "string \<Rightarrow> 'a \<Rightarrow> (string \<times> 'a) list \<Rightarrow> (string \<times> 'a) list" where
  "assign key v obj = (if key = ''__proto__'' then obj else AList.update key v obj)"

fun assignAll :: "(string \<times> 'a) list \<Rightarrow> (string \<times> 'a) list \<Rightarrow> (string \<times> 'a) list" where
  "assignAll [] obj = obj"
| "assignAll ((key, v) # rest) obj = assignAll rest (assign key v obj)"

text \<open>
  The loops of the two \<open>fields\<close> thunks, over the entries of the shape. A throw of the
  mapper ends the loop and the thunk.
\<close>

fun outputFields :: "host \<Rightarrow> string \<Rightarrow> (string \<times> zod) list \<Rightarrow> (string \<times> field) list \<Rightarrow> mapper \<Rightarrow>
    (exn + (string \<times> field) list) \<times> mapper" where
  "outputFields h name [] obj s = (Inr obj, s)"
| "outputFields h name ((key, fieldSchema) # rest) obj s =
     (case mapZodToGraphQLOutput h fieldSchema (name @ ''_'' @ key) s of
        (Inl e, s') \<Rightarrow> (Inl e, s')
      | (Inr t, s') \<Rightarrow>
          outputFields h name rest
            (assign (sanitizeFieldName key) (t, getZodDescription fieldSchema) obj) s')"

fun inputFields :: "host \<Rightarrow> string \<Rightarrow> (string \<times> zod) list \<Rightarrow> (string \<times> field) list \<Rightarrow> mapper \<Rightarrow>
    (exn + (string \<times> field) list) \<times> mapper" where
  "inputFields h inputName [] obj s = (Inr obj, s)"
| "inputFields h inputName ((key, fieldSchema) # rest) obj s =
     (case mapZodToGraphQLInput h fieldSchema (inputName @ ''_'' @ key) s of
        (Inl e, s') \<Rightarrow> (Inl e, s')
      | (Inr t, s') \<Rightarrow>
          inputFields h inputName rest
            (assign (sanitizeFieldName key) (t, getZodDescription fieldSchema) obj) s')"

text \<open>
  \<open>getFields()\<close>: the first call runs the thunk, has graphql-js define the field map from
  what the thunk returned or from the field map the constructor was given, and keeps the
  result in the instance; a later call returns what was kept. When the thunk or the
  definition throws nothing is kept, and the next call starts again. An enum type has no
  fields.
\<close>

definition resolveFields :: "nat \<Rightarrow> named \<Rightarrow> mapper \<Rightarrow> mapper" where
  "resolveFields r t s = s\<lparr>types := (types s)(r \<mapsto> t)\<rparr>"

definition defined :: "exn option \<Rightarrow> nat \<Rightarrow> named \<Rightarrow> (string \<times> field) list \<Rightarrow> mapper \<Rightarrow>
    (exn + (string \<times> field) list) \<times> mapper" where
  "defined thrown r t fs s =
     (case thrown of
        Some e \<Rightarrow> (Inl e, s)
      | None \<Rightarrow> (Inr fs, resolveFields r t s))"

definition getFields :: "host \<Rightarrow> nat \<Rightarrow> mapper \<Rightarrow> (exn + (string \<times> field) list) \<times> mapper" where
  "getFields h r s =
     (case types s r of
        Some (ObjectType nm (Thunk shape name)) \<Rightarrow>
          (case outputFields h name shape [] s of
             (Inl e, s') \<Rightarrow> (Inl e, s')
           | (Inr fs, s') \<Rightarrow> defined (defineFieldMap h nm fs) r (ObjectType nm (Fields fs)) fs s')
      | Some (ObjectType nm (Config fs)) \<Rightarrow> defined (defineFieldMap h nm fs) r (ObjectType nm (Fields fs)) fs s
      | Some (ObjectType nm (Fields fs)) \<Rightarrow> (Inr fs, s)
      | Some (InputObjectType nm (Thunk shape inputName)) \<Rightarrow>
          (case inputFields h inputName shape [] s of
             (Inl e, s') \<Rightarrow> (Inl e, s')
           | (Inr fs, s') \<Rightarrow> defined (defineInputFieldMap h nm fs) r (InputObjectType nm (Fields fs)) fs s')
      | Some (InputObjectType nm (Config fs)) \<Rightarrow>
          defined (defineInputFieldMap h nm fs) r (InputObjectType nm (Fields fs)) fs s
      | Some (InputObjectType nm (Fields fs)) \<Rightarrow> (Inr fs, s)
      | Some (EnumType nm vs) \<Rightarrow> (Inr [], s)
      | None \<Rightarrow> (Inr [], s))"

section \<open>The domain type (schema builder)\<close>

text \<open>
  \<open>capitalize\<close> and \<open>pathToFieldName\<close> of the schema builder, which work on the segments
  of a path as they are: \<open>str.charAt(0).toUpperCase() + str.slice(1)\<close> with the host's
  \<open>toUpperCase\<close>, which may return more than one character. And of a domain the parts that
  \<open>buildDomainTypes\<close> reads: the two schemas and the entries of \<open>paths.derived\<close>, each a path
  with its \<open>semantic.description\<close> if it has one.
\<close>

definition capitalizeStr :: "host \<Rightarrow> string \<Rightarrow> string" where
  "capitalizeStr h str = toUpperCaseOf h (take 1 str) @ drop 1 str"

definition pathToFieldName :: "host \<Rightarrow> string \<Rightarrow> string" where
  "pathToFieldName h path =
     (let parts = split (CHR ''.'') path;
          parts' = (if length parts > 1 \<and> hd parts \<in> {''data'', ''state'', ''derived'', ''async''}
                    then tl parts else parts)
      in case parts' of [] \<Rightarrow> [] | part # rest \<Rightarrow> part @ concat (map (capitalizeStr h) rest))"

record domain =
  dom_id :: string
  dom_name :: "string option"
  dataSchema :: "zod option"
  stateSchema :: "zod option"
  derived :: "(string \<times> string option) list option"

text \<open>
  The unwrapping of a non-null type followed by the test \<open>instanceof GraphQLObjectType\<close>.
\<close>

fun objectTypeOf :: "mapper \<Rightarrow> gtype \<Rightarrow> nat option" where
  "objectTypeOf s (GraphQLNonNull (Named r)) =
     (case types s r of Some (ObjectType nm fs) \<Rightarrow> Some r | _ \<Rightarrow> None)"
| "objectTypeOf s (Named r) =
     (case types s r of Some (ObjectType nm fs) \<Rightarrow> Some r | _ \<Rightarrow> None)"
| "objectTypeOf s t = None"

text \<open>
  The \<open>fields\<close> thunk of the domain type. \<open>objectFields\<close> is the \<open>getFields()\<close> of the type
  mapped from a schema (nothing when that type is no object type), \<open>schemaFields\<close> one of
  the two blocks that copy these fields, \<open>derivedFields\<close> the loop over the derived paths.
  A throw of the mapper or of \<open>getFields()\<close> leaves the thunk.
\<close>

definition objectFields :: "host \<Rightarrow> zod \<Rightarrow> string \<Rightarrow> mapper \<Rightarrow> (exn + (string \<times> field) list) \<times> mapper" where
  "objectFields h schema typeName s =
     (case mapZodToGraphQLOutput h schema typeName s of
        (Inl e, s1) \<Rightarrow> (Inl e, s1)
      | (Inr t, s1) \<Rightarrow>
          (case objectTypeOf s1 t of
             None \<Rightarrow> (Inr [], s1)
           | Some r \<Rightarrow> getFields h r s1))"

definition schemaFields :: "host \<Rightarrow> zod option \<Rightarrow> string \<Rightarrow> (string \<times> field) list \<Rightarrow> mapper \<Rightarrow>
    (exn + (string \<times> field) list) \<times> mapper" where
  "schemaFields h schema typeName obj s =
     (case schema of
        None \<Rightarrow> (Inr obj, s)
      | Some sch \<Rightarrow>
          (case objectFields h sch typeName s of
             (Inl e, s') \<Rightarrow> (Inl e, s')
           | (Inr fs, s') \<Rightarrow> (Inr (assignAll fs obj), s')))"

definition derivedField :: "host \<Rightarrow> string \<times> string option \<Rightarrow> string \<times> field" where
  "derivedField h e =
     (case e of (path, description) \<Rightarrow>
        (pathToFieldName h path,
         (GraphQLJSON, Some (case description of None \<Rightarrow> ''Derived field: '' @ path | Some d \<Rightarrow> d))))"

definition derivedFields :: "host \<Rightarrow> (string \<times> string option) list option \<Rightarrow> (string \<times> field) list \<Rightarrow>
    (string \<times> field) list" where
  "derivedFields h ds obj =
     (case ds of
        None \<Rightarrow> obj
      | Some entries \<Rightarrow> assignAll (map (derivedField h) entries) obj)"

definition domainFields :: "host \<Rightarrow> domain \<Rightarrow> string \<Rightarrow> mapper \<Rightarrow> (exn + (string \<times> field) list) \<times> mapper" where
  "domainFields h domain domainName s =
     (case schemaFields h (dataSchema domain) (domainName @ ''Data'') [] s of
        (Inl e, s1) \<Rightarrow> (Inl e, s1)
      | (Inr dataFields, s1) \<Rightarrow>
          (case schemaFields h (stateSchema domain) (domainName @ ''State'') dataFields s1 of
             (Inl e, s2) \<Rightarrow> (Inl e, s2)
           | (Inr stateFields, s2) \<Rightarrow>
               (let obj = derivedFields h (derived domain) stateFields in
                (Inr (if obj = []
                      then [(''_id'', (GraphQLNonNull GraphQLString, Some ''Domain ID''))]
                      else obj), s2))))"

text \<open>
  \<open>buildDomainTypes\<close> constructs the domain type, which throws or gives the type with its
  name, its description and its \<open>fields\<close> thunk. \<open>domainGetFields\<close> is the first
  \<open>getFields()\<close> of that type, which the construction of the schema calls: the thunk, then
  the definition of the field map it returned.
\<close>

record domainType =
  dt_name :: string
  dt_description :: "string option"
  dt_fields :: "mapper \<Rightarrow> (exn + (string \<times> field) list) \<times> mapper"

definition buildDomainTypes :: "host \<Rightarrow> domain \<Rightarrow> string \<Rightarrow> exn + domainType" where
  "buildDomainTypes h domain domainName =
     (case newGraphQLObjectType h domainName of
        Some e \<Rightarrow> Inl e
      | None \<Rightarrow>
          Inr \<lparr>dt_name = domainName, dt_description = dom_name domain,
               dt_fields = domainFields h domain domainName\<rparr>)"

definition domainGetFields :: "host \<Rightarrow> domainType \<Rightarrow> mapper \<Rightarrow> (exn + (string \<times> field) list) \<times> mapper" where
  "domainGetFields h dt s =
     (case dt_fields dt s of
        (Inl e, s') \<Rightarrow> (Inl e, s')
      | (Inr fs, s') \<Rightarrow>
          (case defineFieldMap h (dt_name dt) fs of
             Some e \<Rightarrow> (Inl e, s')
           | None \<Rightarrow> (Inr fs, s')))"

text \<open>
  The construction of the domain type followed by the first \<open>getFields()\<close> of it.
\<close>

definition domainTypeFields :: "host \<Rightarrow> domain \<Rightarrow> string \<Rightarrow> mapper \<Rightarrow> (exn + (string \<times> field) list) \<times> mapper" where
  "domainTypeFields h domain domainName s =
     (case buildDomainTypes h domain domainName of
        Inl e \<Rightarrow> (Inl e, s)
      | Inr dt \<Rightarrow> domainGetFields h dt s)"

text \<open>
  A generation session: any sequence of calls into the mapper that does not clear the cache,
  whether they return or throw.
\<close>

datatype mapperCall =
    MapOutput zod string
  | MapInput zod string
  | GetFields nat
  | DomainFields domain string

fun perform :: "host \<Rightarrow> mapperCall \<Rightarrow> mapper \<Rightarrow> mapper" where
  "perform h (MapOutput schema name) s = snd (mapZodToGraphQLOutput h schema name s)"
| "perform h (MapInput schema name) s = snd (mapZodToGraphQLInput h schema name s)"
| "perform h (GetFields r) s = snd (getFields h r s)"
| "perform h (DomainFields domain domainName) s = snd (domainTypeFields h domain domainName s)"

fun session :: "host \<Rightarrow> mapperCall list \<Rightarrow> mapper \<Rightarrow> mapper" where
  "session h [] s = s"
| "session h (c # calls) s = session h calls (perform h c s)"

definition newMapper :: mapper where
  "newMapper = \<lparr>typeCache = (\<lambda>key. None), types = (\<lambda>r. None), nextType = 0\<rparr>"

text \<open>The nodes that are mapped to a named type: an object with its shape, and the enums.\<close>

fun namedNode :: "zod \<Rightarrow> bool" where
  "namedNode (Schema d (ZodObject (Some shape))) = True"
| "namedNode (Schema d (ZodEnum values)) = True"
| "namedNode (Schema d (ZodNativeEnum values)) = True"
| "namedNode schema = False"

text \<open>
  What every field map built by assignment satisfies: one entry per key, none for
  \<open>__proto__\<close>; and the mapper states in which the fields of every instance do.
\<close>

definition fieldsOk :: "(string \<times> 'a) list \<Rightarrow> bool" where
  "fieldsOk fs = (distinct (map fst fs) \<and> ''__proto__'' \<notin> fst ` set fs)"

fun fieldsOf :: "named \<Rightarrow> (string \<times> field) list" where
  "fieldsOf (ObjectType nm (Fields fs)) = fs"
| "fieldsOf (ObjectType nm (Config fs)) = fs"
| "fieldsOf (InputObjectType nm (Fields fs)) = fs"
| "fieldsOf (InputObjectType nm (Config fs)) = fs"
| "fieldsOf t = []"

definition mapperInvariant :: "mapper \<Rightarrow> bool" where
  "mapperInvariant s = (\<forall>r t. types s r = Some t \<longrightarrow> fieldsOk (fieldsOf t))"

text \<open>
  The field names of the derived paths of a domain, and the derived path that is assigned
  last under a field name.
\<close>

definition derivedNames :: "host \<Rightarrow> domain \<Rightarrow> string set" where
  "derivedNames h domain =
     (case derived domain of None \<Rightarrow> {} | Some entries \<Rightarrow> pathToFieldName h ` fst ` set entries)"

definition lastDerived :: "host \<Rightarrow> domain \<Rightarrow> string \<Rightarrow> string \<times> string option" where
  "lastDerived h domain n =
     last (filter (\<lambda>e. pathToFieldName h (fst e) = n) (case derived domain of None \<Rightarrow> [] | Some entries \<Rightarrow> entries))"

text \<open>
  The cache keys that mapping a node under \<open>name\<close> can write: a key prefix followed by
  \<open>name\<close> and possibly more.
\<close>

definition keyUnder :: "string \<Rightarrow> string \<Rightarrow> bool" where
  "keyUnder name key =
     (\<exists>p \<in> {''enum:'', ''nativeEnum:'', ''object:''}. take (length p + length name) key = p @ name)"

section \<open>Concrete inputs\<close>

text \<open>
  A runtime over a log of the paths written: writing \<open>b\<close> is recorded and then
  throws, no condition can be evaluated, there is no \<open>evaluatePrecondition\<close>, and the
  fallback hook throws a value that is not an \<open>Error\<close>.
\<close>

definition failingRuntime :: "string list runtime" where
  "failingRuntime =
     \<lparr>rt_set = (\<lambda>path v log. (log @ [path], if path = ''b'' then Some (Error ''denied'') else None)),
      rt_getSnapshot = (\<lambda>log. Inr JNull),
      rt_evaluateCondition = Some (\<lambda>c log. Inl (Error ''no such condition'')),
      rt_evaluatePrecondition = None,
      rt_runEffect = Some (\<lambda>tag input log. (log, Some (Thrown JNull)))\<rparr>"

text \<open>
  An action with three preconditions (a function that holds, a name the runtime cannot
  evaluate, a reference whose evaluation throws) and a request context whose engine logs
  what is published.
\<close>

definition blockedAction :: "string list actionDef" where
  "blockedAction =
     \<lparr>ad_preconditions = Some [FunctionPrecondition (\<lambda>snapshot. Inr True),
                               OtherPrecondition (JStr ''isDraft''),
                               RefPrecondition (JStr ''state.ready'') (Some ''Order is not ready'')],
      ad_effect = Some (SetValue ''a'' (Literal JNull))\<rparr>"

definition blockedContext :: "(string list, (string \<times> event) list) request_context" where
  "blockedContext =
     \<lparr>ctx_runtime = failingRuntime,
      ctx_pubsub = Some (\<lambda>trigger payload log. (log @ [(trigger, payload)], None)),
      ctx_domainId = ''order'',
      ctx_now = (\<lambda>k. 0)\<rparr>"

text \<open>
  User callback 0 throws on every payload, the others return. An engine with callback 0
  subscribed to \<open>t\<close> (under id 1), and the same with callback 1 subscribed after it.
\<close>

definition firstThrows :: "nat \<Rightarrow> jsval \<Rightarrow> exn option" where
  "firstThrows u payload = (if u = 0 then Some (Error ''boom'') else None)"

definition oneSubscriber :: pubsub where
  "oneSubscriber = snd (subscribe ''t'' (UserCallback 0) newPubSub)"

definition twoSubscribers :: pubsub where
  "twoSubscribers = snd (subscribe ''t'' (UserCallback 1) oneSubscriber)"

text \<open>A new engine after \<open>asyncIterator(['t'])\<close>.\<close>

definition listeningOnT :: pubsub where
  "listeningOnT = snd (asyncIterator [''t''] newPubSub)"




definition subscribedTwice :: pubsub where
  "subscribedTwice = snd (subscribe ''t'' (UserCallback 0) oneSubscriber)"

text \<open>
  A host in the manner of graphql-js 16: the constructors throw on a type name, and on an
  enum value name, that is not a GraphQL name (\<open>/^[_a-zA-Z][_a-zA-Z0-9]*$/\<close>), and the
  definition of a field map throws on such a field name; \<open>toUpperCase\<close> is the ASCII one,
  and \<open>isNaN(Number(key))\<close> holds of every key.
\<close>

definition isName :: "string \<Rightarrow> bool" where
  "isName name = (name \<noteq> [] \<and> \<not> startsWithDigit name \<and> list_all isNameChar name)"

definition assertName :: "string \<Rightarrow> exn option" where
  "assertName name = (if isName name then None else Some (Error (''Invalid name: '' @ name)))"

fun firstThrown :: "exn option list \<Rightarrow> exn option" where
  "firstThrown [] = None"
| "firstThrown (None # rest) = firstThrown rest"
| "firstThrown (Some e # rest) = Some e"

definition strictHost :: host where
  "strictHost =
     \<lparr>isNaNNumber = (\<lambda>key. True),
      toUpperCaseOf = map toUpperCase,
      newGraphQLEnumType = (\<lambda>name vs. firstThrown (assertName name # map (\<lambda>e. assertName (fst e)) vs)),
      newGraphQLObjectType = assertName,
      newGraphQLInputObjectType = assertName,
      defineFieldMap = (\<lambda>name fs. firstThrown (map (\<lambda>e. assertName (fst e)) fs)),
      defineInputFieldMap = (\<lambda>name fs. firstThrown (map (\<lambda>e. assertName (fst e)) fs))\<rparr>"

text \<open>
  A domain whose data schema and state schema both declare \<open>total\<close>, with one derived path
  of another name; the same domain with the derived path \<open>derived.total\<close>, with two derived paths of that
  field name, and with the derived path \<open>derived.total-price\<close>; an enum node; a
  session; and the mapper after the data schema has been mapped once under the name
  \<open>Order\<close>.
\<close>

definition totalData :: zod where
  "totalData = Schema None (ZodObject (Some [(''total'', Schema (Some ''Data total'') (ZodNumber None))]))"

definition totalState :: zod where
  "totalState = Schema None (ZodObject (Some [(''total'', Schema (Some ''State total'') ZodString)]))"

definition orderDomain :: domain where
  "orderDomain =
     \<lparr>dom_id = ''order'', dom_name = Some ''Order'', dataSchema = Some totalData, stateSchema = Some totalState,
      derived = Some [(''derived.count'', None)]\<rparr>"

definition derivedTotalDomain :: domain where
  "derivedTotalDomain = orderDomain\<lparr>derived := Some [(''derived.total'', None)]\<rparr>"

definition twiceDerivedDomain :: domain where
  "twiceDerivedDomain = orderDomain\<lparr>derived := Some [(''derived.total'', None), (''total'', Some ''Sum'')]\<rparr>"

definition totalPriceDomain :: domain where
  "totalPriceDomain = orderDomain\<lparr>derived := Some [(''derived.total-price'', None)]\<rparr>"

definition statusNode :: zod where
  "statusNode = Schema None (ZodEnum (Some [''open'', ''closed'']))"

definition laterCalls :: "mapperCall list" where
  "laterCalls = [GetFields 0, MapOutput statusNode ''OrderStatus'', MapInput totalData ''Order'',
                 DomainFields orderDomain ''Order'']"

definition mappedOnce :: mapper where
  "mappedOnce = snd (mapZodToGraphQLOutput strictHost totalData ''Order'' newMapper)"

section \<open>Properties of name sanitization\<close>

lemma isNameChar_underscore: "isNameChar (CHR ''_'')"
  by (simp add: isNameChar_def)

lemma isNameChar_replaceSpecial: "c \<in> set (replaceSpecial n) \<Longrightarrow> isNameChar c"
  by (auto simp: replaceSpecial_def isNameChar_underscore)

lemma isNameChar_prefixDigit: "c \<in> set (prefixDigit (replaceSpecial n)) \<Longrightarrow> isNameChar c"
  by (auto simp: prefixDigit_def isNameChar_replaceSpecial isNameChar_underscore split: if_splits)

lemma isLower_toLowerCase: "isUpper c \<Longrightarrow> isLower (toLowerCase c)"
  by (simp add: toLowerCase_def isLower_def isUpper_def)

lemma isNameChar_toLowerCase: "isNameChar c \<Longrightarrow> isNameChar (toLowerCase c)"
  by (cases "isUpper c") (auto simp: isNameChar_def isLower_toLowerCase, simp_all add: toLowerCase_def)

lemma isDigit_toLowerCase: "isDigit (toLowerCase c) = isDigit c"
  by (auto simp: toLowerCase_def isUpper_def isDigit_def)

text \<open>
  The field-name half of the sanitization contract holds for every raw name: the
  result has only characters of \<open>[A-Za-z0-9_]\<close> and does not start with a digit.
\<close>

lemma sanitizeFieldName_chars: "c \<in> set (sanitizeFieldName n) \<Longrightarrow> isNameChar c"
proof -
  assume a: "c \<in> set (sanitizeFieldName n)"
  show ?thesis
  proof (cases "prefixDigit (replaceSpecial n)")
    case Nil
    with a show ?thesis by (simp add: sanitizeFieldName_def)
  next
    case (Cons d ds)
    have "isNameChar d" and "\<And>x. x \<in> set ds \<Longrightarrow> isNameChar x"
      using isNameChar_prefixDigit[of _ n] Cons by auto
    with a Cons show ?thesis
      by (auto simp: sanitizeFieldName_def isNameChar_toLowerCase)
  qed
qed

lemma sanitizeFieldName_no_digit: "\<not> startsWithDigit (sanitizeFieldName n)"
proof (cases "startsWithDigit (replaceSpecial n)")
  case True
  then show ?thesis
    by (simp add: sanitizeFieldName_def prefixDigit_def toLowerCase_def isUpper_def isDigit_def)
next
  case False
  then show ?thesis
    by (cases "replaceSpecial n") (simp_all add: sanitizeFieldName_def prefixDigit_def isDigit_toLowerCase)
qed

lemma sanitize_examples:
  "sanitizeTypeName ''user-profile'' = ''UserProfile''"
  "sanitizeTypeName ''data.user'' = ''DataUser''"
  "sanitizeTypeName ''123abc'' = ''123abc''"
  "sanitizeFieldName ''UserName'' = ''userName''"
  "sanitizeFieldName ''first-name'' = ''first_name''"
  "sanitizeFieldName ''123field'' = ''_123field''"
  "sanitizeEnumValue ''in-progress'' = ''IN_PROGRESS''"
  by code_simp+

text \<open>
  Claim C5. For a raw name with a character outside \<open>[A-Za-z0-9_]\<close>, the sanitized type
  name and field name should have only characters of that class and never start with
  a digit. The raw name \<open>1-a\<close> has such a character; \<open>sanitizeTypeName\<close> turns it into
  \<open>_1_a\<close> and then joins the capitalized parts between the underscores, which removes
  the prefix again: the type name is \<open>1A\<close> and starts with a digit, while
  \<open>sanitizeFieldName\<close> keeps the prefix.
\<close>

theorem sanitizeTypeName_leading_digit:
  "\<not> isNameChar (CHR ''-'')
   \<and> sanitizeTypeName ''1-a'' = ''1A''
   \<and> startsWithDigit (sanitizeTypeName ''1-a'')
   \<and> sanitizeFieldName ''1-a'' = ''_1_a''"
  by code_simp

section \<open>Properties of the date-time scalar\<close>

text \<open>
  Claim C4, as stated, fails: \<open>serialize\<close> throws a RangeError on a number (or string,
  or Date object) that denotes no instant, and \<open>parseValue\<close> returns an Invalid Date
  object for it, not \<open>null\<close>. The number NaN is such an input whatever the host's
  \<open>Date.parse\<close> does.
\<close>

theorem GraphQLDateTime_unparseable_counterexample:
  "\<forall>h. GraphQLDateTime_serialize h (JNum NaN) = Inl (RangeError ''Invalid time value'')
     \<and> GraphQLDateTime_serialize h (JDate None) = Inl (RangeError ''Invalid time value'')
     \<and> GraphQLDateTime_parseValue h (JNum NaN) = Inr (JDate None)
     \<and> GraphQLDateTime_parseValue h (JNum NaN) \<noteq> Inr JNull"
  by simp

text \<open>
  Claim C4, amended. \<open>parseValue\<close> never throws: it returns \<open>null\<close> exactly for an
  input that is neither a string nor a number, and for a string or a number it returns
  a Date object, an Invalid Date when the input denotes no instant. \<open>serialize\<close>
  returns \<open>null\<close> exactly for an input that is not a Date, a string or a number; for
  one of these it returns the ISO-8601 text of the instant, and throws a RangeError
  when there is no instant.
\<close>

theorem GraphQLDateTime_total_behaviour:
  "GraphQLDateTime_parseValue h v =
     (if isStringOrNumber v then Inr (JDate (timeValueOf h v)) else Inr JNull)
   \<and> GraphQLDateTime_serialize h v =
     (if isDateLike v
      then (case timeValueOf h v of
              None \<Rightarrow> Inl (RangeError ''Invalid time value'')
            | Some t \<Rightarrow> Inr (JStr (Date_toISO h t)))
      else Inr JNull)"
  by (cases v) (auto simp add: isDateLike_def isStringOrNumber_def split: option.splits)

section \<open>Properties of the effect interpreter\<close>

lemma tryCatch_Inr: "\<exists>r. tryCatch fr = Inr r \<and> success r = (errors r = [])"
  by (cases "f_thrown fr") (simp_all add: tryCatch_def)

lemma executeEffect_Inr:
  "\<exists>r. executeEffect ns ops effect input rt = Inr r \<and> success r = (errors r = [])"
  by (cases effect) (simp_all add: tryCatch_Inr)












text \<open>
  Claim C2. In a Sequence \<open>[A, B, C]\<close> whose child \<open>B\<close> is interpreted (so \<open>A\<close>
  succeeded) and reports an error, the result has the effects of \<open>A\<close> followed by
  those \<open>B\<close> recorded before it failed, the errors of \<open>B\<close> (a non-empty list), and
  the runtime as \<open>B\<close> left it, which \<open>B\<close> received from \<open>A\<close>: nothing is undone.
  \<open>C\<close> contributes nothing: the result is that of the Sequence \<open>[A, B]\<close>.
\<close>

theorem sequence_stops_at_first_failure:
  assumes a: "executeEffect ns ops A input rt = Inr ra" and sa: "success ra"
    and b: "executeEffect ns ops B input (after ra) = Inr rb" and eb: "errors rb \<noteq> []"
  shows "executeEffect ns ops (Sequence [A, B, C]) input rt =
           Inr \<lparr>success = False, effects = effects ra @ effects rb, errors = errors rb, after = after rb\<rparr>
         \<and> executeEffect ns ops (Sequence [A, B, C]) input rt = executeEffect ns ops (Sequence [A, B]) input rt"
proof -
  from executeEffect_Inr[of ns ops B input "after ra"] b have "success rb = (errors rb = [])" by auto
  with eb have nb: "\<not> success rb" by simp
  from executeEffect_Inr[of ns ops A input rt] a sa have ea: "errors ra = []" by auto
  show ?thesis using a sa b nb eb ea
    by (simp add: completed_def tryCatch_def)
qed

theorem sequence_stops_at_first_failure_witness:
  "executeEffect (\<lambda>n. ''1'') failingRuntime
     (Sequence [SetValue ''a'' (Literal (JNum (Fin 1))), SetValue ''b'' (Literal (JNum (Fin 1))),
                SetValue ''c'' (Literal (JNum (Fin 1)))]) JNull [] =
   Inr \<lparr>success = False,
        effects = [\<lparr>er_type = ''SetValue'', er_path = Some ''a'', er_description = ''Set a to 1''\<rparr>],
        errors = [\<lparr>ae_code = ''EFFECT_EXECUTION_ERROR'', ae_message = ''denied''\<rparr>],
        after = [''a'', ''b'']\<rparr>"
proof -
  let ?ns = "\<lambda>n::jsnum. ''1''"
  let ?ra = "\<lparr>success = True,
        effects = [\<lparr>er_type = ''SetValue'', er_path = Some ''a'', er_description = ''Set a to 1''\<rparr>],
        errors = [], after = [''a'']\<rparr>"
  let ?rb = "\<lparr>success = False, effects = [],
        errors = [\<lparr>ae_code = ''EFFECT_EXECUTION_ERROR'', ae_message = ''denied''\<rparr>],
        after = [''a'', ''b'']\<rparr>"
  have a: "executeEffect ?ns failingRuntime (SetValue ''a'' (Literal (JNum (Fin 1)))) JNull [] = Inr ?ra"
    by (simp add: failingRuntime_def setValueBranch_def tryCatch_def completed_def threw_def)
  have sa: "success ?ra" by simp
  have b: "executeEffect ?ns failingRuntime (SetValue ''b'' (Literal (JNum (Fin 1)))) JNull (after ?ra) = Inr ?rb"
    by (simp add: failingRuntime_def setValueBranch_def tryCatch_def completed_def threw_def
          effectExecutionError_def)
  have eb: "errors ?rb \<noteq> []" by simp
  show ?thesis
    using sequence_stops_at_first_failure[OF a sa b eb, of "SetValue ''c'' (Literal (JNum (Fin 1)))"]
    by simp
qed

section \<open>Properties of the action resolver\<close>

lemma preconditionLoop_append:
  "preconditionLoop ops rt ps acc = acc @ List.map_filter (blockedReason ops rt) ps"
  by (induction ps arbitrary: acc) (simp_all split: option.splits)

lemma map_filter_length:
  "length (List.map_filter f xs) = length (filter (\<lambda>x. f x \<noteq> None) xs)"
  by (induction xs) (auto split: option.splits)

lemma map_filter_nonempty:
  "x \<in> set xs \<Longrightarrow> f x \<noteq> None \<Longrightarrow> List.map_filter f xs \<noteq> []"
  by (induction xs) (auto split: option.splits)

text \<open>
  Claim C1. When a precondition of the action is violated (it is not satisfied, or its
  evaluation throws), the resolver returns \<open>success: false\<close> with one error of code
  \<open>PRECONDITION_FAILED\<close> per violated precondition, in their order, and no effects; it
  does not invoke \<open>executeEffect\<close>, and leaves the runtime and the engine as they were.
\<close>

theorem blocked_action_never_interpreted:
  assumes ps: "ad_preconditions actionDef = Some ps"
    and p: "p \<in> set ps" and v: "blockedReason (ctx_runtime ctx) rt p \<noteq> None"
  shows "createActionResolver ns actionId actionDef input ctx rt ps0 =
           \<lparr>response =
              \<lparr>ar_success = False,
               ar_errors = Some (map (\<lambda>reason. \<lparr>ae_code = ''PRECONDITION_FAILED'', ae_message = reason\<rparr>)
                                  (List.map_filter (blockedReason (ctx_runtime ctx) rt) ps)),
               ar_effects = None\<rparr>,
            runtime_after = rt, pubsub_after = ps0, interpreterCalls = 0\<rparr>
         \<and> length (List.map_filter (blockedReason (ctx_runtime ctx) rt) ps) =
             length (filter (\<lambda>q. blockedReason (ctx_runtime ctx) rt q \<noteq> None) ps)"
proof -
  have "List.map_filter (blockedReason (ctx_runtime ctx) rt) ps \<noteq> []"
    using p v by (rule map_filter_nonempty)
  then show ?thesis
    using ps
    by (simp add: createActionResolver_def evaluatePreconditions_def preconditionLoop_append
          preconditionFailed_def map_filter_length Let_def)
qed

theorem blocked_action_never_interpreted_witness:
  "createActionResolver (\<lambda>n. ''1'') ''confirm'' blockedAction JNull blockedContext [] [] =
     \<lparr>response =
        \<lparr>ar_success = False,
         ar_errors = Some [\<lparr>ae_code = ''PRECONDITION_FAILED'', ae_message = ''Precondition not satisfied''\<rparr>,
                           \<lparr>ae_code = ''PRECONDITION_FAILED'', ae_message = ''Error evaluating precondition''\<rparr>],
         ar_effects = None\<rparr>,
      runtime_after = [], pubsub_after = [], interpreterCalls = 0\<rparr>"
proof -
  have ps: "ad_preconditions blockedAction = Some [FunctionPrecondition (\<lambda>snapshot. Inr True),
                               OtherPrecondition (JStr ''isDraft''),
                               RefPrecondition (JStr ''state.ready'') (Some ''Order is not ready'')]"
    by (simp add: blockedAction_def)
  have v: "blockedReason (ctx_runtime blockedContext) [] (OtherPrecondition (JStr ''isDraft'')) \<noteq> None"
    by (simp add: blockedContext_def failingRuntime_def blockedReason_def)
  show ?thesis
    using blocked_action_never_interpreted[OF ps _ v, of "\<lambda>n. ''1''" "''confirm''" JNull "[]"]
    by (simp add: blockedContext_def failingRuntime_def blockedReason_def
          evaluateCondition_def defaultReason_def)
qed

section \<open>Properties of the subscription engine\<close>

lemma resolve_fields [simp]:
  "subscriptions (resolve p r w) = subscriptions w"
  "subscriptionIds (resolve p r w) = subscriptionIds w"
  "nextId (resolve p r w) = nextId w"
  "iterators (resolve p r w) = iterators w"
  "nextIterator (resolve p r w) = nextIterator w"
  "nextPromise (resolve p r w) = nextPromise w"
  "jobs (resolve p r w) = jobs w"
  "invoked (resolve p r w) = invoked w"
  "console (resolve p r w) = console w"
  by (simp_all add: resolve_def)

lemma pushValue_fields [simp]:
  "subscriptions (pushValue k v w) = subscriptions w"
  "subscriptionIds (pushValue k v w) = subscriptionIds w"
  "nextId (pushValue k v w) = nextId w"
  "nextIterator (pushValue k v w) = nextIterator w"
  "nextPromise (pushValue k v w) = nextPromise w"
  "jobs (pushValue k v w) = jobs w"
  "invoked (pushValue k v w) = invoked w"
  "console (pushValue k v w) = console w"
  by (simp_all add: pushValue_def split: option.splits list.splits)

lemma deliver_subscriptions [simp]:
  "subscriptions (deliver throws t payload subs w) = subscriptions w"
  by (induction subs arbitrary: w) (auto split: prod.splits option.splits callback.splits elim!: invoke.elims)

lemma deliver_subscriptionIds [simp]:
  "subscriptionIds (deliver throws t payload subs w) = subscriptionIds w"
  by (induction subs arbitrary: w) (auto split: prod.splits option.splits callback.splits elim!: invoke.elims)

lemma deliver_invoked:
  "invoked (deliver throws t payload subs w) = invoked w @ map (\<lambda>u. (u, payload)) (userCallbacks subs)"
proof (induction subs arbitrary: w)
  case Nil
  then show ?case by simp
next
  case (Cons cb subs)
  show ?case by (cases cb) (simp_all add: Cons.IH split: option.splits)
qed

text \<open>What \<open>console.error\<close> receives during one publish: one entry per user callback that throws.\<close>

lemma deliver_console:
  "console (deliver throws t payload subs w) =
     console w @ List.map_filter (\<lambda>u. map_option (\<lambda>e. (t, e)) (throws u payload)) (userCallbacks subs)"
proof (induction subs arbitrary: w)
  case Nil
  then show ?case by simp
next
  case (Cons cb subs)
  show ?case by (cases cb) (simp_all add: Cons.IH split: option.splits)
qed

lemma publish_subscriptions [simp]: "subscriptions (publish throws t payload w) = subscriptions w"
  by (simp add: publish_def split: option.splits)

lemma publishMany_single:
  "subscriptions w t = Some [UserCallback u] \<Longrightarrow>
   invoked (publishMany throws t payloads w) = invoked w @ map (\<lambda>p. (u, p)) payloads"
proof (induction payloads arbitrary: w)
  case Nil
  then show ?case by simp
next
  case (Cons p ps)
  have "invoked (publish throws t p w) = invoked w @ [(u, p)]"
    using Cons.prems by (simp add: publish_def deliver_invoked del: deliver.simps)
  moreover have "subscriptions (publish throws t p w) t = Some [UserCallback u]"
    using Cons.prems by simp
  ultimately show ?case using Cons.IH[of "publish throws t p w"] by simp
qed

lemma unsubscribe_removes:
  assumes "subscriptionIds w i = Some (t, cb)"
  shows "case subscriptions (unsubscribe i w) t of None \<Rightarrow> True | Some subs \<Rightarrow> cb \<notin> set subs"
  using assms by (auto simp: unsubscribe_def Let_def split: option.splits)

lemma userCallbacks_notin: "UserCallback u \<notin> set subs \<Longrightarrow> u \<notin> set (userCallbacks subs)"
  by (induction subs rule: userCallbacks.induct) auto

lemma publish_after_unsubscribe:
  assumes "subscriptionIds w i = Some (t, UserCallback u)"
  shows "\<exists>others. invoked (publish throws t payload (unsubscribe i w)) = invoked w @ others
           \<and> u \<notin> fst ` set others"
proof (cases "subscriptions (unsubscribe i w) t")
  case None
  then show ?thesis using assms
    by (auto simp: publish_def unsubscribe_def Let_def split: option.splits if_splits)
next
  case (Some subs)
  have inv: "invoked (unsubscribe i w) = invoked w"
    using assms by (auto simp: unsubscribe_def Let_def split: option.splits)
  have "UserCallback u \<notin> set subs" using unsubscribe_removes[OF assms] Some by simp
  then have "u \<notin> set (userCallbacks subs)" by (rule userCallbacks_notin)
  then show ?thesis using Some inv
    by (auto simp: publish_def deliver_invoked simp del: deliver.simps)
qed

lemma unsubscribe_last:
  assumes "subscriptionIds w i = Some (t, cb)" and "subscriptions w t = Some [cb]"
  shows "subscriptions (unsubscribe i w) t = None"
  using assms by (simp add: unsubscribe_def Let_def)

text \<open>
  What holds of the \<open>Set\<close> of callbacks of a trigger. When it has one member, publishing a
  list of payloads calls that callback once per payload, in publication order, whether or
  not it throws. In one publish every member is called, in the order of the \<open>Set\<close>; a
  callback that throws adds one entry to \<open>console.error\<close> and the ones after it are still
  called. The publish that follows \<open>unsubscribe\<close> of a registration does not call its
  callback; when the callback was the only member the trigger is removed, and a publish on
  a trigger with no subscribers changes nothing.
\<close>

lemma publish_delivery:
  "(subscriptions w t = Some [UserCallback u] \<longrightarrow>
      invoked (publishMany throws t payloads w) = invoked w @ map (\<lambda>p. (u, p)) payloads)
   \<and> (subscriptions w t = Some subs \<longrightarrow>
      invoked (publish throws t payload w) = invoked w @ map (\<lambda>u. (u, payload)) (userCallbacks subs)
      \<and> console (publish throws t payload w) =
          console w @ List.map_filter (\<lambda>u. map_option (\<lambda>e. (t, e)) (throws u payload)) (userCallbacks subs))
   \<and> (subscriptionIds w i = Some (t, UserCallback u) \<longrightarrow>
      (\<exists>others. invoked (publish throws t payload (unsubscribe i w)) = invoked w @ others
                \<and> u \<notin> fst ` set others))
   \<and> (subscriptionIds w i = Some (t, cb) \<and> subscriptions w t = Some [cb] \<longrightarrow>
      subscriptions (unsubscribe i w) t = None)
   \<and> (subscriptions w t = None \<longrightarrow> publish throws t payload w = w)"
  using publishMany_single[of w t u throws payloads] publish_after_unsubscribe[of w i t u throws payload]
    unsubscribe_last[of w i t cb]
  by (auto simp: publish_def deliver_invoked deliver_console simp del: deliver.simps)

lemma oneSubscriber_fields:
  "subscriptions oneSubscriber ''t'' = Some [UserCallback 0]"
  "subscriptionIds oneSubscriber (Suc 0) = Some (''t'', UserCallback 0)"
  "invoked oneSubscriber = []" "console oneSubscriber = []"
  by (simp_all add: oneSubscriber_def subscribe_def newPubSub_def setAdd_def)

lemma twoSubscribers_fields:
  "subscriptions twoSubscribers ''t'' = Some [UserCallback 0, UserCallback 1]"
  "subscriptionIds twoSubscribers (Suc 0) = Some (''t'', UserCallback 0)"
  "invoked twoSubscribers = []" "console twoSubscribers = []"
  by (simp_all add: twoSubscribers_def subscribe_def oneSubscriber_fields setAdd_def oneSubscriber_def newPubSub_def)

lemma publish_delivery_instances:
  "invoked (publishMany firstThrows ''t'' [JNum (Fin 1), JNum (Fin 2), JNum (Fin 3)] oneSubscriber) =
     [(0, JNum (Fin 1)), (0, JNum (Fin 2)), (0, JNum (Fin 3))]
   \<and> invoked (publish firstThrows ''t'' JNull twoSubscribers) = [(0, JNull), (1, JNull)]
   \<and> console (publish firstThrows ''t'' JNull twoSubscribers) = [(''t'', Error ''boom'')]
   \<and> invoked (publish firstThrows ''t'' JNull (unsubscribe 1 twoSubscribers)) = [(1, JNull)]
   \<and> subscriptions (unsubscribe 1 oneSubscriber) ''t'' = None
   \<and> publish firstThrows ''t'' JNull newPubSub = newPubSub"
proof -
  have a: "invoked (publishMany firstThrows ''t'' [JNum (Fin 1), JNum (Fin 2), JNum (Fin 3)] oneSubscriber) =
     [(0, JNum (Fin 1)), (0, JNum (Fin 2)), (0, JNum (Fin 3))]"
    using publish_delivery[of oneSubscriber "''t''" 0 firstThrows "[JNum (Fin 1), JNum (Fin 2), JNum (Fin 3)]"]
    by (simp add: oneSubscriber_fields)
  have b: "invoked (publish firstThrows ''t'' JNull twoSubscribers) = [(0, JNull), (1, JNull)]
      \<and> console (publish firstThrows ''t'' JNull twoSubscribers) = [(''t'', Error ''boom'')]"
    using publish_delivery[of twoSubscribers "''t''" 0 firstThrows "[]" "[UserCallback 0, UserCallback 1]" JNull]
    by (simp add: twoSubscribers_fields firstThrows_def)
  have c: "invoked (publish firstThrows ''t'' JNull (unsubscribe 1 twoSubscribers)) = [(1, JNull)]"
    using publish_delivery[of twoSubscribers "''t''" 0 firstThrows "[]" "[]" JNull 1]
    by (simp add: publish_def unsubscribe_def twoSubscribers_fields firstThrows_def Let_def)
  have d: "subscriptions (unsubscribe 1 oneSubscriber) ''t'' = None"
    using publish_delivery[of oneSubscriber "''t''" 0 firstThrows "[]" "[]" JNull 1 "UserCallback 0"]
    by (simp add: oneSubscriber_fields)
  have e: "publish firstThrows ''t'' JNull newPubSub = newPubSub"
    using publish_delivery[of newPubSub "''t''" 0 firstThrows "[]" "[]" JNull 1 "UserCallback 0"]
    by (simp add: newPubSub_def)
  from a b c d e show ?thesis by simp
qed

text \<open>
  Claim C8 fails on a callback that is registered twice. Callback 0 is subscribed to \<open>t\<close>
  under the ids 1 and 2; the \<open>Set\<close> holds it once. \<open>unsubscribe(1)\<close> deletes it from the
  \<open>Set\<close>, and with it the trigger, although registration 2 is still recorded: the trigger
  has one active registration, and of the payloads published to it none is delivered.
\<close>

theorem unsubscribe_silences_other_registration:
  "subscriptionIds subscribedTwice 1 = Some (''t'', UserCallback 0)
   \<and> subscriptionIds subscribedTwice 2 = Some (''t'', UserCallback 0)
   \<and> subscriptions subscribedTwice ''t'' = Some [UserCallback 0]
   \<and> subscriptionIds (unsubscribe 1 subscribedTwice) 2 = Some (''t'', UserCallback 0)
   \<and> subscriptions (unsubscribe 1 subscribedTwice) ''t'' = None
   \<and> invoked (publishMany firstThrows ''t'' [JNum (Fin 1), JNum (Fin 2)] (unsubscribe 1 subscribedTwice)) = []
   \<and> publishMany firstThrows ''t'' [JNum (Fin 1), JNum (Fin 2)] (unsubscribe 1 subscribedTwice) =
       unsubscribe 1 subscribedTwice"
  by (simp add: subscribedTwice_def oneSubscriber_def subscribe_def newPubSub_def setAdd_def
        unsubscribe_def publish_def Let_def)

text \<open>
  The same for any engine, trigger and callback: after two registrations of the callback and
  \<open>unsubscribe\<close> of the first, the second is still recorded and the callback is no longer
  among the trigger's subscribers.
\<close>

lemma double_registration:
  "subscriptionIds
     (unsubscribe (nextId w) (snd (subscribe t cb (snd (subscribe t cb w))))) (nextId w + 1) = Some (t, cb)
   \<and> (case subscriptions (unsubscribe (nextId w) (snd (subscribe t cb (snd (subscribe t cb w))))) t of
        None \<Rightarrow> True | Some subs \<Rightarrow> cb \<notin> set subs)"
  by (auto simp: subscribe_def unsubscribe_def setAdd_def Let_def split: option.splits)

section \<open>Properties of the async iterator\<close>

lemma pushValue_iterators:
  "iterators (pushValue k v w) = (case iterators w k of None \<Rightarrow> iterators w | Some it \<Rightarrow> (iterators w)(k \<mapsto> pushed v it))"
  by (auto simp: pushValue_def pushed_def resolve_def split: option.splits list.splits)











lemma wellFormed_log [simp]:
  "wellFormed (w\<lparr>invoked := x\<rparr>) = wellFormed w"
  "wellFormed (w\<lparr>console := y\<rparr>) = wellFormed w"
  by (simp_all add: wellFormed_def)



lemma subscribe_fields [simp]:
  "nextId (snd (subscribe t cb w)) = nextId w + 1"
  "fst (subscribe t cb w) = nextId w"
  "iterators (snd (subscribe t cb w)) = iterators w"
  "nextIterator (snd (subscribe t cb w)) = nextIterator w"
  "promises (snd (subscribe t cb w)) = promises w"
  "nextPromise (snd (subscribe t cb w)) = nextPromise w"
  "jobs (snd (subscribe t cb w)) = jobs w"
  "invoked (snd (subscribe t cb w)) = invoked w"
  "console (snd (subscribe t cb w)) = console w"
  "subscriptionIds (snd (subscribe t cb w)) = (subscriptionIds w)(nextId w \<mapsto> (t, cb))"
  "subscriptions (snd (subscribe t cb w)) =
     (subscriptions w)(t \<mapsto> setAdd cb (case subscriptions w t of None \<Rightarrow> [] | Some s \<Rightarrow> s))"
  by (simp_all add: subscribe_def Let_def)

lemma set_setAdd [simp]: "set (setAdd x xs) = insert x (set xs)"
  by (auto simp: setAdd_def)


lemma unsubscribe_fields [simp]:
  "nextId (unsubscribe i w) = nextId w"
  "iterators (unsubscribe i w) = iterators w"
  "nextIterator (unsubscribe i w) = nextIterator w"
  "promises (unsubscribe i w) = promises w"
  "nextPromise (unsubscribe i w) = nextPromise w"
  "jobs (unsubscribe i w) = jobs w"
  "invoked (unsubscribe i w) = invoked w"
  "console (unsubscribe i w) = console w"
  by (simp_all add: unsubscribe_def Let_def split: option.splits prod.splits)

lemma unsubscribe_subscriptionIds:
  "subscriptionIds (unsubscribe i w) = (subscriptionIds w)(i := None)"
  by (auto simp: unsubscribe_def Let_def split: option.splits prod.splits)




lemma subscribeAll_frame [simp]:
  "iterators (subscribeAll k j ts w) = iterators w"
  "nextIterator (subscribeAll k j ts w) = nextIterator w"
  "promises (subscribeAll k j ts w) = promises w"
  "nextPromise (subscribeAll k j ts w) = nextPromise w"
  "invoked (subscribeAll k j ts w) = invoked w"
  "console (subscribeAll k j ts w) = console w"
  by (induction ts arbitrary: j w) (simp_all split: prod.splits add: subscribe_def Let_def)













lemma unsubscribeAll_frame [simp]:
  "nextId (unsubscribeAll ids w) = nextId w"
  "iterators (unsubscribeAll ids w) = iterators w"
  "nextIterator (unsubscribeAll ids w) = nextIterator w"
  "promises (unsubscribeAll ids w) = promises w"
  "nextPromise (unsubscribeAll ids w) = nextPromise w"
  "jobs (unsubscribeAll ids w) = jobs w"
  "invoked (unsubscribeAll ids w) = invoked w"
  "console (unsubscribeAll ids w) = console w"
  by (induction ids arbitrary: w) simp_all




lemma deliver_iterators:
  "iterators (deliver throws t v subs w) k =
     map_option ((pushed v) ^^ (length (filter (isClosureOf k) subs))) (iterators w k)"
proof (induction subs arbitrary: w)
  case Nil
  then show ?case by (simp add: option.map_ident)
next
  case (Cons cb subs)
  show ?case
  proof (cases cb)
    case (UserCallback u)
    then show ?thesis by (simp add: Cons.IH split: option.splits)
  next
    case (PushValue k' j)
    show ?thesis
    proof (cases "k' = k")
      case True
      then show ?thesis using PushValue
        by (cases "iterators w k") (simp_all add: Cons.IH pushValue_iterators funpow_swap1)
    next
      case False
      then show ?thesis using PushValue
        by (cases "iterators w k'") (simp_all add: Cons.IH pushValue_iterators)
    qed
  qed
qed

lemma deliver_nextPromise [simp]: "nextPromise (deliver throws t v subs w) = nextPromise w"
  by (induction subs arbitrary: w) (auto split: prod.splits option.splits callback.splits elim!: invoke.elims)

lemma publish_nextPromise [simp]: "nextPromise (publish throws t v w) = nextPromise w"
  by (simp add: publish_def split: option.splits)










lemma pushed_ids [simp]: "it_subscriptionIds (pushed v it) = it_subscriptionIds it"
  by (simp add: pushed_def split: list.splits)

lemma funpow_pushed_ids [simp]: "it_subscriptionIds ((pushed v ^^ n) it) = it_subscriptionIds it"
  by (induction n) simp_all

lemma deliver_jobs [simp]: "jobs (deliver throws t v subs w) = jobs w"
  by (induction subs arbitrary: w) (auto split: prod.splits option.splits callback.splits elim!: invoke.elims)

lemma idsOf_deliver [simp]: "idsOf (deliver throws t v subs w) = idsOf w"
  by (rule ext) (simp add: idsOf_def deliver_iterators option.map_comp comp_def)



lemma pullValue_frame [simp]:
  "subscriptions (snd (pullValue k w)) = subscriptions w"
  "subscriptionIds (snd (pullValue k w)) = subscriptionIds w"
  "nextId (snd (pullValue k w)) = nextId w"
  "nextIterator (snd (pullValue k w)) = nextIterator w"
  "jobs (snd (pullValue k w)) = jobs w"
  "invoked (snd (pullValue k w)) = invoked w"
  "console (snd (pullValue k w)) = console w"
  "nextPromise (snd (pullValue k w)) = nextPromise w + 1"
  "fst (pullValue k w) = nextPromise w"
  by (simp_all add: pullValue_def Let_def split: option.splits)

lemma idsOf_pullValue [simp]: "idsOf (snd (pullValue k w)) = idsOf w"
  by (rule ext) (auto simp: idsOf_def pullValue_def Let_def split: option.splits)


lemma resolveAll_frame [simp]:
  "subscriptions (resolveAll ps w) = subscriptions w"
  "subscriptionIds (resolveAll ps w) = subscriptionIds w"
  "nextId (resolveAll ps w) = nextId w"
  "iterators (resolveAll ps w) = iterators w"
  "nextIterator (resolveAll ps w) = nextIterator w"
  "nextPromise (resolveAll ps w) = nextPromise w"
  "jobs (resolveAll ps w) = jobs w"
  "invoked (resolveAll ps w) = invoked w"
  "console (resolveAll ps w) = console w"
  by (induction ps arbitrary: w) simp_all

lemma idsOf_subscribe [simp]: "idsOf (snd (subscribe t cb w)) = idsOf w"
  by (rule ext) (simp add: idsOf_def)


lemma idsOf_unsubscribe [simp]: "idsOf (unsubscribe i w) = idsOf w"
  by (rule ext) (simp add: idsOf_def)






lemma trackedBy_jobs_field [simp]: "trackedBy js (w\<lparr>jobs := x\<rparr>) = trackedBy js w"
  by (simp add: trackedBy_def idsOf_def)

lemma runJobs_frame [simp]:
  "subscriptions (runJobs js w) = subscriptions w"
  "subscriptionIds (runJobs js w) = subscriptionIds w"
  "nextId (runJobs js w) = nextId w"
  "nextIterator (runJobs js w) = nextIterator w"
  "promises (runJobs js w) = promises w"
  "nextPromise (runJobs js w) = nextPromise w"
  "jobs (runJobs js w) = jobs w"
  "invoked (runJobs js w) = invoked w"
  "console (runJobs js w) = console w"
  by (induction js arbitrary: w) (auto split: option.splits)





lemma idsOf_resolveAll [simp]: "idsOf (resolveAll ps w) = idsOf w"
  by (rule ext) (simp add: idsOf_def)













lemma unsubscribeAll_subscriptionIds_None:
  "subscriptionIds w i = None \<Longrightarrow> subscriptionIds (unsubscribeAll ids w) i = None"
  by (induction ids arbitrary: w) (simp_all add: unsubscribe_subscriptionIds)


lemma deliver_counters [simp]:
  "nextIterator (deliver throws t v subs w) = nextIterator w"
  "nextId (deliver throws t v subs w) = nextId w"
  by (induction subs arbitrary: w) (auto split: prod.splits option.splits callback.splits elim!: invoke.elims)

lemma publish_counters [simp]:
  "nextIterator (publish throws t v w) = nextIterator w"
  "nextId (publish throws t v w) = nextId w"
  by (simp_all add: publish_def split: option.splits)

lemma registered_publish [simp]: "registered k (publish throws t v w) = registered k w"
  by (simp add: registered_def)













lemma registered_runMicrotasks [simp]: "registered k (runMicrotasks w) = registered k w"
  by (simp add: registered_def runMicrotasks_def)



lemma registered_pullValue [simp]: "registered k (snd (pullValue k' w)) = registered k w"
  by (simp add: registered_def)




lemma iteratorReturn_frame [simp]:
  "nextIterator (snd (iteratorReturn k w)) = nextIterator w"
  "nextPromise (snd (iteratorReturn k w)) = nextPromise w"
  "fst (iteratorReturn k w) = \<lparr>ir_value = JUndefined, ir_done = True\<rparr>"
  by (simp_all add: iteratorReturn_def Let_def split: option.splits)




lemma iteratorThrow_frame [simp]:
  "nextIterator (snd (iteratorThrow k e w)) = nextIterator w"
  by (simp_all add: iteratorThrow_def split: option.splits)






















lemma nojobs_step:
  assumes "wellFormed w" "k < nextIterator w" "\<And>i. (k, i) \<notin> set (jobs w)"
  shows "(k, i) \<notin> set (jobs (step throws x w))"
proof (cases x)
  case (AsyncIterator ts)
  have "\<And>j w0. (k, i) \<notin> set (jobs w0) \<Longrightarrow> k \<noteq> nextIterator w \<Longrightarrow>
          (k, i) \<notin> set (jobs (subscribeAll (nextIterator w) j ts w0))"
  proof -
    fix j w0 show "(k, i) \<notin> set (jobs w0) \<Longrightarrow> k \<noteq> nextIterator w \<Longrightarrow>
          (k, i) \<notin> set (jobs (subscribeAll (nextIterator w) j ts w0))"
      by (induction ts arbitrary: j w0) (simp_all add: case_prod_beta)
  qed
  then show ?thesis using AsyncIterator assms(2,3) by (simp add: asyncIterator_def Let_def)
next
  case Microtasks
  then show ?thesis by (simp add: runMicrotasks_def)
next
  case (Return k')
  then show ?thesis using assms(3)
    by (cases "iterators w k'") (simp_all add: iteratorReturn_def Let_def)
next
  case (Throw k' e)
  then show ?thesis using assms(3)
    by (cases "iterators w k'") (simp_all add: iteratorThrow_def)
qed (use assms(3) in \<open>simp_all add: iteratorNext_def clear_def publish_def split: option.splits\<close>)


























lemma deliver_nextId [simp]: "nextId (deliver throws t v subs w) = nextId w"
  by (induction subs arbitrary: w) (auto split: prod.splits option.splits callback.splits elim!: invoke.elims)


lemma filter_setAdd_user [simp]:
  "filter (isClosureOf k) (setAdd (UserCallback u) subs) = filter (isClosureOf k) subs"
  by (simp add: setAdd_def)





























text \<open>
  A pending pull whose iterator has lost its registration is not resolved by a publish to
  the trigger: after \<open>clear\<close>, after \<open>unsubscribe\<close> of the id of the iterator's closure,
  and after \<open>throw\<close> on the iterator once its ids are recorded.
\<close>

lemma detached_pull_stays_pending:
  "promises (run firstThrows [Next 0, Clear, Publish ''t'' (JNum (Fin 1))] listeningOnT) 0 = None
   \<and> promises (run firstThrows [Next 0, Unsubscribe 1, Publish ''t'' (JNum (Fin 1))] listeningOnT) 0 = None
   \<and> promises (run firstThrows [Microtasks, Next 0, Throw 0 (Error ''stop''), Publish ''t'' (JNum (Fin 1))]
                 listeningOnT) 0 = None"
  by (simp add: listeningOnT_def asyncIterator_def subscribe_def newPubSub_def setAdd_def publish_def
        pushValue_def iteratorNext_def pullValue_def resolve_def runMicrotasks_def iteratorThrow_def
        unsubscribe_def clear_def Let_def)









section \<open>Properties of the type cache\<close>

lemma snd_asNamed: "snd (asNamed a) = snd a"
  by (simp add: asNamed_def split: prod.splits sum.splits)

lemma snd_nonNullUnless: "snd (nonNullUnless b a) = snd a"
  by (simp add: nonNullUnless_def split: prod.splits sum.splits)

lemma snd_listOf: "snd (listOf a) = snd a"
  by (simp add: listOf_def split: prod.splits sum.splits)

lemma snd_construct:
  "typeCache (snd (construct thrown t s)) = typeCache s"
  by (simp add: construct_def allocate_def split: option.splits)

lemma mapZodEnumToGraphQL_cache:
  "typeCache s k = Some r \<Longrightarrow> typeCache (snd (mapZodEnumToGraphQL h values name s)) k = Some r"
  by (auto simp: mapZodEnumToGraphQL_def cacheSet_def construct_def allocate_def Let_def split: option.splits)

lemma mapZodNativeEnumToGraphQL_cache:
  "typeCache s k = Some r \<Longrightarrow> typeCache (snd (mapZodNativeEnumToGraphQL h values name s)) k = Some r"
  by (auto simp: mapZodNativeEnumToGraphQL_def cacheSet_def construct_def allocate_def Let_def split: option.splits)

lemma mapZodObjectToGraphQLOutput_cache:
  "typeCache s k = Some r \<Longrightarrow> typeCache (snd (mapZodObjectToGraphQLOutput h shapeFunc name s)) k = Some r"
  by (auto simp: mapZodObjectToGraphQLOutput_def cacheSet_def construct_def allocate_def split: option.splits)

lemma mapZodObjectToGraphQLInput_cache:
  "typeCache s k = Some r \<Longrightarrow> typeCache (snd (mapZodObjectToGraphQLInput h shapeFunc name s)) k = Some r"
  by (auto simp: mapZodObjectToGraphQLInput_def Let_def cacheSet_def construct_def allocate_def split: option.splits)

lemma mapZodToGraphQLOutput_cache:
  "typeCache s k = Some r \<Longrightarrow> typeCache (snd (mapZodToGraphQLOutput h schema name s)) k = Some r"
  "typeCache s k = Some r \<Longrightarrow> typeCache (snd (mapZodToGraphQLOutputBase h schema' name' s)) k = Some r"
  by (induction h schema name s and h schema' name' s rule: mapZodToGraphQLOutput_mapZodToGraphQLOutputBase.induct)
     (simp_all add: snd_asNamed snd_nonNullUnless snd_listOf mapZodEnumToGraphQL_cache
        mapZodNativeEnumToGraphQL_cache mapZodObjectToGraphQLOutput_cache)

lemma mapZodToGraphQLInput_cache:
  "typeCache s k = Some r \<Longrightarrow> typeCache (snd (mapZodToGraphQLInput h schema name s)) k = Some r"
  "typeCache s k = Some r \<Longrightarrow> typeCache (snd (mapZodToGraphQLInputBase h schema' name' s)) k = Some r"
  by (induction h schema name s and h schema' name' s rule: mapZodToGraphQLInput_mapZodToGraphQLInputBase.induct)
     (simp_all add: snd_asNamed snd_nonNullUnless snd_listOf mapZodEnumToGraphQL_cache
        mapZodNativeEnumToGraphQL_cache mapZodObjectToGraphQLInput_cache)

lemma outputFields_cache:
  "typeCache s k = Some r \<Longrightarrow> typeCache (snd (outputFields h name shape obj s)) k = Some r"
proof (induction shape arbitrary: obj s)
  case Nil
  then show ?case by simp
next
  case (Cons e shape)
  obtain key fieldSchema where e: "e = (key, fieldSchema)" by (cases e)
  obtain t s' where m: "mapZodToGraphQLOutput h fieldSchema (name @ ''_'' @ key) s = (t, s')"
    by (cases "mapZodToGraphQLOutput h fieldSchema (name @ ''_'' @ key) s")
  have "typeCache s' k = Some r"
    using mapZodToGraphQLOutput_cache(1)[OF Cons.prems, of h fieldSchema "name @ ''_'' @ key"] m by simp
  then show ?case using Cons.IH e m by (cases t) simp_all
qed

lemma inputFields_cache:
  "typeCache s k = Some r \<Longrightarrow> typeCache (snd (inputFields h name shape obj s)) k = Some r"
proof (induction shape arbitrary: obj s)
  case Nil
  then show ?case by simp
next
  case (Cons e shape)
  obtain key fieldSchema where e: "e = (key, fieldSchema)" by (cases e)
  obtain t s' where m: "mapZodToGraphQLInput h fieldSchema (name @ ''_'' @ key) s = (t, s')"
    by (cases "mapZodToGraphQLInput h fieldSchema (name @ ''_'' @ key) s")
  have "typeCache s' k = Some r"
    using mapZodToGraphQLInput_cache(1)[OF Cons.prems, of h fieldSchema "name @ ''_'' @ key"] m by simp
  then show ?case using Cons.IH e m by (cases t) simp_all
qed

lemma snd_defined: "typeCache (snd (defined thrown r t fs s)) = typeCache s"
  by (simp add: defined_def resolveFields_def split: option.splits)

lemma getFields_cache:
  "typeCache s k = Some r \<Longrightarrow> typeCache (snd (getFields h ref s)) k = Some r"
  using outputFields_cache[of s k r h] inputFields_cache[of s k r h]
  by (auto simp: getFields_def snd_defined split: option.splits named.splits fields.splits prod.splits sum.splits)
     (metis snd_conv)+

lemma objectFields_cache:
  "typeCache s k = Some r \<Longrightarrow> typeCache (snd (objectFields h schema typeName s)) k = Some r"
proof -
  assume a: "typeCache s k = Some r"
  obtain t s1 where m: "mapZodToGraphQLOutput h schema typeName s = (t, s1)"
    by (cases "mapZodToGraphQLOutput h schema typeName s")
  have c: "typeCache s1 k = Some r"
    using mapZodToGraphQLOutput_cache(1)[OF a, of h schema typeName] m by simp
  show ?thesis
    using c getFields_cache[OF c, of h] m by (cases t) (simp_all add: objectFields_def split: option.splits)
qed

lemma schemaFields_cache:
  "typeCache s k = Some r \<Longrightarrow> typeCache (snd (schemaFields h schema typeName obj s)) k = Some r"
  using objectFields_cache[of s k r h]
  by (auto simp: schemaFields_def split: option.splits prod.splits sum.splits) (metis snd_conv)+

lemma domainFields_cache:
  "typeCache s k = Some r \<Longrightarrow> typeCache (snd (domainFields h domain domainName s)) k = Some r"
proof -
  assume a: "typeCache s k = Some r"
  obtain f1 s1 where d: "schemaFields h (dataSchema domain) (domainName @ ''Data'') [] s = (f1, s1)"
    by (cases "schemaFields h (dataSchema domain) (domainName @ ''Data'') [] s")
  have c1: "typeCache s1 k = Some r"
    using schemaFields_cache[OF a, of h "dataSchema domain" "domainName @ ''Data''" "[]"] d by simp
  show ?thesis
  proof (cases f1)
    case (Inl e)
    then show ?thesis using d c1 by (simp add: domainFields_def)
  next
    case (Inr dataFields)
    obtain f2 s2 where e: "schemaFields h (stateSchema domain) (domainName @ ''State'') dataFields s1 = (f2, s2)"
      by (cases "schemaFields h (stateSchema domain) (domainName @ ''State'') dataFields s1")
    have c2: "typeCache s2 k = Some r"
      using schemaFields_cache[OF c1, of h "stateSchema domain" "domainName @ ''State''" dataFields] e by simp
    show ?thesis using d e c2 Inr by (cases f2) (simp_all add: domainFields_def Let_def)
  qed
qed

lemma domainGetFields_cache:
  "typeCache s k = Some r \<Longrightarrow>
   typeCache (snd (domainGetFields h \<lparr>dt_name = n, dt_description = d, dt_fields = domainFields h domain domainName\<rparr> s)) k
     = Some r"
  using domainFields_cache[of s k r h domain domainName]
  by (auto simp: domainGetFields_def split: prod.splits sum.splits option.splits)

lemma perform_cache:
  "typeCache s k = Some r \<Longrightarrow> typeCache (perform h c s) k = Some r"
  by (cases c)
     (simp_all add: mapZodToGraphQLOutput_cache(1) mapZodToGraphQLInput_cache(1) getFields_cache
        domainGetFields_cache buildDomainTypes_def domainTypeFields_def
        del: mapZodToGraphQLOutput.simps mapZodToGraphQLInput.simps split: option.splits)

lemma session_cache:
  "typeCache s k = Some r \<Longrightarrow> typeCache (session h calls s) k = Some r"
  by (induction calls arbitrary: s) (simp_all add: perform_cache)

lemma mapZodObjectToGraphQLOutput_hit:
  "typeCache s (''object:'' @ name) = Some r \<Longrightarrow> mapZodObjectToGraphQLOutput h shapeFunc name s = (Inr r, s)"
  by (simp add: mapZodObjectToGraphQLOutput_def)

lemma mapZodObjectToGraphQLOutput_cached:
  "fst (mapZodObjectToGraphQLOutput h (Some shape) name s) = Inr r \<Longrightarrow>
   typeCache (snd (mapZodObjectToGraphQLOutput h (Some shape) name s)) (''object:'' @ name) = Some r"
  by (auto simp: mapZodObjectToGraphQLOutput_def cacheSet_def construct_def allocate_def split: option.splits)

lemma mapZodObjectToGraphQLInput_hit:
  "typeCache s (''inputObject:'' @ name @ ''Input'') = Some r \<Longrightarrow>
   mapZodObjectToGraphQLInput h shapeFunc name s = (Inr r, s)"
  by (simp add: mapZodObjectToGraphQLInput_def Let_def)

lemma mapZodObjectToGraphQLInput_cached:
  "fst (mapZodObjectToGraphQLInput h (Some shape) name s) = Inr r \<Longrightarrow>
   typeCache (snd (mapZodObjectToGraphQLInput h (Some shape) name s)) (''inputObject:'' @ name @ ''Input'') = Some r"
  by (auto simp: mapZodObjectToGraphQLInput_def Let_def cacheSet_def construct_def allocate_def split: option.splits)

lemma mapZodEnumToGraphQL_hit:
  "typeCache s (''enum:'' @ name) = Some r \<Longrightarrow> mapZodEnumToGraphQL h values name s = (Inr r, s)"
  by (simp add: mapZodEnumToGraphQL_def)

lemma mapZodEnumToGraphQL_cached:
  "fst (mapZodEnumToGraphQL h values name s) = Inr r \<Longrightarrow>
   typeCache (snd (mapZodEnumToGraphQL h values name s)) (''enum:'' @ name) = Some r"
  by (auto simp: mapZodEnumToGraphQL_def Let_def cacheSet_def construct_def allocate_def split: option.splits)

lemma mapZodNativeEnumToGraphQL_hit:
  "typeCache s (''nativeEnum:'' @ name) = Some r \<Longrightarrow> mapZodNativeEnumToGraphQL h values name s = (Inr r, s)"
  by (simp add: mapZodNativeEnumToGraphQL_def)

lemma mapZodNativeEnumToGraphQL_cached:
  "fst (mapZodNativeEnumToGraphQL h values name s) = Inr r \<Longrightarrow>
   typeCache (snd (mapZodNativeEnumToGraphQL h values name s)) (''nativeEnum:'' @ name) = Some r"
  by (auto simp: mapZodNativeEnumToGraphQL_def Let_def cacheSet_def construct_def allocate_def split: option.splits)

lemma mapZodObjectToGraphQLOutput_again:
  assumes "fst (mapZodObjectToGraphQLOutput h (Some shape) name s) = Inr r"
  shows "fst (mapZodObjectToGraphQLOutput h shapeFunc name
            (session h calls (snd (mapZodObjectToGraphQLOutput h (Some shape) name s)))) = Inr r"
  using session_cache[OF mapZodObjectToGraphQLOutput_cached[OF assms], of h calls]
  by (simp add: mapZodObjectToGraphQLOutput_hit)

lemma mapZodObjectToGraphQLInput_again:
  assumes "fst (mapZodObjectToGraphQLInput h (Some shape) name s) = Inr r"
  shows "fst (mapZodObjectToGraphQLInput h shapeFunc name
            (session h calls (snd (mapZodObjectToGraphQLInput h (Some shape) name s)))) = Inr r"
  using session_cache[OF mapZodObjectToGraphQLInput_cached[OF assms], of h calls]
  by (simp add: mapZodObjectToGraphQLInput_hit)

lemma mapZodEnumToGraphQL_again:
  assumes "fst (mapZodEnumToGraphQL h vs name s) = Inr r"
  shows "fst (mapZodEnumToGraphQL h vs' name (session h calls (snd (mapZodEnumToGraphQL h vs name s)))) = Inr r"
  using session_cache[OF mapZodEnumToGraphQL_cached[OF assms], of h calls]
  by (simp add: mapZodEnumToGraphQL_hit)

lemma mapZodNativeEnumToGraphQL_again:
  assumes "fst (mapZodNativeEnumToGraphQL h vs name s) = Inr r"
  shows "fst (mapZodNativeEnumToGraphQL h vs' name
            (session h calls (snd (mapZodNativeEnumToGraphQL h vs name s)))) = Inr r"
  using session_cache[OF mapZodNativeEnumToGraphQL_cached[OF assms], of h calls]
  by (simp add: mapZodNativeEnumToGraphQL_hit)

lemma fst_nonNullUnless:
  "fst (nonNullUnless b a) =
     (case fst a of Inl e \<Rightarrow> Inl e | Inr t \<Rightarrow> Inr (if b then t else GraphQLNonNull t))"
  by (simp add: nonNullUnless_def split: prod.splits sum.splits)

lemma fst_asNamed: "fst (asNamed a) = (case fst a of Inl e \<Rightarrow> Inl e | Inr r \<Rightarrow> Inr (Named r))"
  by (simp add: asNamed_def split: prod.splits sum.splits)

lemma namedNode_output_again:
  assumes "namedNode inner"
    and "fst (mapZodToGraphQLOutputBase h inner name s) = Inr t"
  shows "fst (mapZodToGraphQLOutputBase h inner name (session h calls (snd (mapZodToGraphQLOutputBase h inner name s)))) =
         Inr t"
  using assms
  by (cases inner rule: namedNode.cases)
     (auto simp: fst_asNamed snd_asNamed mapZodObjectToGraphQLOutput_again mapZodEnumToGraphQL_again
        mapZodNativeEnumToGraphQL_again split: sum.splits)

lemma namedNode_input_again:
  assumes "namedNode inner"
    and "fst (mapZodToGraphQLInputBase h inner name s) = Inr t"
  shows "fst (mapZodToGraphQLInputBase h inner name (session h calls (snd (mapZodToGraphQLInputBase h inner name s)))) =
         Inr t"
  using assms
  by (cases inner rule: namedNode.cases)
     (auto simp: fst_asNamed snd_asNamed mapZodObjectToGraphQLInput_again mapZodEnumToGraphQL_again
        mapZodNativeEnumToGraphQL_again split: sum.splits)

text \<open>
  A host none of whose constructors throws, as graphql-js was before it checked names in
  them: there the mapping of a named node always returns an instance.
\<close>

lemma namedNode_returns:
  assumes "namedNode inner"
    and "\<And>n vs. newGraphQLEnumType h n vs = None"
    and "\<And>n. newGraphQLObjectType h n = None"
    and "\<And>n. newGraphQLInputObjectType h n = None"
  shows "\<exists>t. fst (mapZodToGraphQLOutputBase h inner name s) = Inr t"
    and "\<exists>t. fst (mapZodToGraphQLInputBase h inner name s) = Inr t"
  using assms
  by (cases inner rule: namedNode.cases;
      auto simp: fst_asNamed mapZodObjectToGraphQLOutput_def mapZodObjectToGraphQLInput_def
        mapZodEnumToGraphQL_def mapZodNativeEnumToGraphQL_def Let_def cacheSet_def construct_def allocate_def
        split: option.splits sum.splits)+

text \<open>
  Claim C9. Within one generation session, that is over any sequence of mapper calls none of
  which clears the cache, mapping the same named node (an object node with its shape, an
  enum or a native enum node, under any optional, nullable or default wrappers) under the
  same name a second time returns the instance that the first mapping returned, for the
  output and for the input mapper; and no entry of the type cache is ever replaced: a key
  that yields an instance yields the same instance on every later lookup. The first mapping
  returns an instance unless the constructor of graphql-js throws; where no constructor
  throws, the two mappings return the same.
\<close>

theorem type_cache_same_instance:
  assumes "namedNode (fst (unwrapZodType node))"
  shows "(\<forall>t. fst (mapZodToGraphQLOutput h node name s) = Inr t \<longrightarrow>
            fst (mapZodToGraphQLOutput h node name (session h calls (snd (mapZodToGraphQLOutput h node name s)))) =
              Inr t)
       \<and> (\<forall>t. fst (mapZodToGraphQLInput h node name s) = Inr t \<longrightarrow>
            fst (mapZodToGraphQLInput h node name (session h calls (snd (mapZodToGraphQLInput h node name s)))) =
              Inr t)
       \<and> (\<forall>key instance. typeCache s key = Some instance \<longrightarrow>
             typeCache (session h calls s) key = Some instance)
       \<and> ((\<forall>n vs. newGraphQLEnumType h n vs = None) \<and> (\<forall>n. newGraphQLObjectType h n = None)
            \<and> (\<forall>n. newGraphQLInputObjectType h n = None) \<longrightarrow>
          fst (mapZodToGraphQLOutput h node name (session h calls (snd (mapZodToGraphQLOutput h node name s)))) =
            fst (mapZodToGraphQLOutput h node name s)
          \<and> fst (mapZodToGraphQLInput h node name (session h calls (snd (mapZodToGraphQLInput h node name s)))) =
            fst (mapZodToGraphQLInput h node name s))"
proof -
  let ?inner = "fst (unwrapZodType node)"
  let ?o = "mapZodToGraphQLOutputBase h ?inner name"
  let ?i = "mapZodToGraphQLInputBase h ?inner name"
  have a: "fst (?o (session h calls (snd (?o s)))) = Inr t" if "fst (?o s) = Inr t" for t
    using namedNode_output_again[OF assms that] .
  have b: "fst (?i (session h calls (snd (?i s)))) = Inr t" if "fst (?i s) = Inr t" for t
    using namedNode_input_again[OF assms that] .
  have 1: "\<forall>t. fst (mapZodToGraphQLOutput h node name s) = Inr t \<longrightarrow>
            fst (mapZodToGraphQLOutput h node name (session h calls (snd (mapZodToGraphQLOutput h node name s)))) =
              Inr t"
    using a by (auto simp: fst_nonNullUnless snd_nonNullUnless split: sum.splits)
  have 2: "\<forall>t. fst (mapZodToGraphQLInput h node name s) = Inr t \<longrightarrow>
            fst (mapZodToGraphQLInput h node name (session h calls (snd (mapZodToGraphQLInput h node name s)))) =
              Inr t"
    using b by (auto simp: fst_nonNullUnless snd_nonNullUnless split: sum.splits)
  have 3: "\<forall>key instance. typeCache s key = Some instance \<longrightarrow>
             typeCache (session h calls s) key = Some instance"
    by (simp add: session_cache)
  have 4: "fst (mapZodToGraphQLOutput h node name (session h calls (snd (mapZodToGraphQLOutput h node name s)))) =
            fst (mapZodToGraphQLOutput h node name s)
          \<and> fst (mapZodToGraphQLInput h node name (session h calls (snd (mapZodToGraphQLInput h node name s)))) =
            fst (mapZodToGraphQLInput h node name s)"
    if c: "(\<forall>n vs. newGraphQLEnumType h n vs = None) \<and> (\<forall>n. newGraphQLObjectType h n = None)
            \<and> (\<forall>n. newGraphQLInputObjectType h n = None)"
  proof -
    obtain t where t: "fst (?o s) = Inr t" using namedNode_returns(1)[OF assms, of h name s] c by auto
    obtain u where u: "fst (?i s) = Inr u" using namedNode_returns(2)[OF assms, of h name s] c by auto
    show ?thesis using a[OF t] b[OF u] t u by (simp add: fst_nonNullUnless snd_nonNullUnless)
  qed
  show ?thesis using 1 2 3 4 by blast
qed

lemma mappedOnce_cache: "typeCache mappedOnce ''object:Order'' = Some 0"
  by (simp add: mappedOnce_def totalData_def newMapper_def nonNullUnless_def asNamed_def
        mapZodObjectToGraphQLOutput_def cacheSet_def construct_def allocate_def strictHost_def
        assertName_def isName_def sanitizeTypeName_def replaceSpecial_def prefixDigit_def isNameChar_def
        isLower_def isUpper_def isDigit_def toUpperCase_def)

theorem type_cache_same_instance_witness:
  "namedNode (fst (unwrapZodType totalData))
   \<and> typeCache mappedOnce ''object:Order'' = Some 0
   \<and> typeCache (session strictHost laterCalls mappedOnce) ''object:Order'' = Some 0
   \<and> fst (mapZodToGraphQLOutput strictHost totalData ''Order'' mappedOnce) = Inr (GraphQLNonNull (Named 0))
   \<and> fst (mapZodToGraphQLOutput strictHost totalData ''Order''
        (session strictHost laterCalls (snd (mapZodToGraphQLOutput strictHost totalData ''Order'' mappedOnce)))) =
      Inr (GraphQLNonNull (Named 0))"
proof -
  have n: "namedNode (fst (unwrapZodType totalData))"
    by (simp add: totalData_def)
  have c: "typeCache mappedOnce ''object:Order'' = Some 0"
    by (rule mappedOnce_cache)
  have f: "fst (mapZodToGraphQLOutput strictHost totalData ''Order'' mappedOnce) = Inr (GraphQLNonNull (Named 0))"
    using c by (simp add: totalData_def nonNullUnless_def asNamed_def mapZodObjectToGraphQLOutput_def)
  show ?thesis
    using type_cache_same_instance[OF n, of strictHost "''Order''" mappedOnce laterCalls] n c f
    by simp
qed

text \<open>
  The one named type that is not cached is the placeholder for an object node with no
  \<open>shape\<close> function, which no Zod object is: each call creates a new one.
\<close>

lemma placeholder_not_cached:
  assumes "typeCache s (''object:'' @ name) = None"
  shows "typeCache (snd (mapZodObjectToGraphQLOutput h None name s)) = typeCache s"
    and "newGraphQLObjectType h (sanitizeTypeName name) = None \<Longrightarrow>
         fst (mapZodObjectToGraphQLOutput h None name s) = Inr (nextType s)
         \<and> fst (mapZodObjectToGraphQLOutput h None name (snd (mapZodObjectToGraphQLOutput h None name s))) =
             Inr (Suc (nextType s))"
  using assms by (simp_all add: mapZodObjectToGraphQLOutput_def construct_def allocate_def split: option.splits)

text \<open>
  Mapping a node under a name writes the cache under the keys of that name only.
\<close>

lemma keyUnder_append: "keyUnder (name @ suffix) key \<Longrightarrow> keyUnder name key"
proof -
  assume "keyUnder (name @ suffix) key"
  then obtain p where p: "p \<in> {''enum:'', ''nativeEnum:'', ''object:''}"
    and t: "take (length p + length (name @ suffix)) key = p @ name @ suffix"
    unfolding keyUnder_def by blast
  have "take (length p + length name) key = take (length p + length name) (take (length p + length (name @ suffix)) key)"
    by (simp add: min_def)
  also have "\<dots> = p @ name" using t by simp
  finally show ?thesis using p unfolding keyUnder_def by blast
qed

lemma keyUnder_own:
  "keyUnder name (''enum:'' @ name)" "keyUnder name (''nativeEnum:'' @ name)" "keyUnder name (''object:'' @ name)"
  by (simp_all add: keyUnder_def)

lemma mapZodEnumToGraphQL_frame:
  "\<not> keyUnder name k \<Longrightarrow> typeCache (snd (mapZodEnumToGraphQL h vs name s)) k = typeCache s k"
  using keyUnder_own(1)[of name]
  by (auto simp: mapZodEnumToGraphQL_def Let_def cacheSet_def construct_def allocate_def split: option.splits)

lemma mapZodNativeEnumToGraphQL_frame:
  "\<not> keyUnder name k \<Longrightarrow> typeCache (snd (mapZodNativeEnumToGraphQL h vs name s)) k = typeCache s k"
  using keyUnder_own(2)[of name]
  by (auto simp: mapZodNativeEnumToGraphQL_def Let_def cacheSet_def construct_def allocate_def split: option.splits)

lemma mapZodObjectToGraphQLOutput_frame:
  "\<not> keyUnder name k \<Longrightarrow> typeCache (snd (mapZodObjectToGraphQLOutput h shapeFunc name s)) k = typeCache s k"
  using keyUnder_own(3)[of name]
  by (auto simp: mapZodObjectToGraphQLOutput_def cacheSet_def construct_def allocate_def split: option.splits)

lemma mapZodToGraphQLOutput_frame:
  "\<not> keyUnder name k \<Longrightarrow> typeCache (snd (mapZodToGraphQLOutput h schema name s)) k = typeCache s k"
  "\<not> keyUnder name' k \<Longrightarrow> typeCache (snd (mapZodToGraphQLOutputBase h schema' name' s)) k = typeCache s k"
proof (induction h schema name s and h schema' name' s rule: mapZodToGraphQLOutput_mapZodToGraphQLOutputBase.induct)
  case (9 h d elementType name s)
  have "\<not> keyUnder (name @ ''Item'') k" using 9(2) keyUnder_append by blast
  then show ?case using 9(1) by (simp add: snd_listOf)
qed (simp_all add: snd_asNamed snd_nonNullUnless snd_listOf mapZodEnumToGraphQL_frame
        mapZodNativeEnumToGraphQL_frame mapZodObjectToGraphQLOutput_frame)

lemma outputFields_frame:
  "\<not> keyUnder name k \<Longrightarrow> typeCache (snd (outputFields h name shape obj s)) k = typeCache s k"
proof (induction shape arbitrary: obj s)
  case Nil
  then show ?case by simp
next
  case (Cons e shape)
  obtain key fieldSchema where e: "e = (key, fieldSchema)" by (cases e)
  obtain t s' where m: "mapZodToGraphQLOutput h fieldSchema (name @ ''_'' @ key) s = (t, s')"
    by (cases "mapZodToGraphQLOutput h fieldSchema (name @ ''_'' @ key) s")
  have "\<not> keyUnder (name @ ''_'' @ key) k" using Cons.prems keyUnder_append by blast
  then have "typeCache s' k = typeCache s k"
    using mapZodToGraphQLOutput_frame(1)[of "name @ ''_'' @ key" k h fieldSchema s] m by simp
  then show ?case using Cons.IH[OF Cons.prems] e m by (cases t) simp_all
qed

text \<open>
  The first mapping of an object node under a name that is not cached: the constructor
  throws, or a new instance with the thunk over the node's shape is returned.
\<close>

lemma mapZodToGraphQLOutput_fresh:
  assumes "fst (unwrapZodType schema) = Schema d (ZodObject (Some shape))"
    and "typeCache s (''object:'' @ typeName) = None"
    and "mapZodToGraphQLOutput h schema typeName s = (Inr t, s1)"
  shows "(t = Named (nextType s) \<or> t = GraphQLNonNull (Named (nextType s)))
       \<and> types s1 (nextType s) = Some (ObjectType (sanitizeTypeName typeName) (Thunk shape typeName))
       \<and> objectTypeOf s1 t = Some (nextType s)"
  using assms
  by (auto simp: nonNullUnless_def asNamed_def mapZodObjectToGraphQLOutput_def cacheSet_def construct_def
        allocate_def split: if_splits option.splits)

lemma objectFields_frame:
  assumes "fst (unwrapZodType schema) = Schema d (ZodObject (Some shape))"
    and "typeCache s (''object:'' @ typeName) = None"
    and "\<not> keyUnder typeName k"
  shows "typeCache (snd (objectFields h schema typeName s)) k = typeCache s k"
proof -
  obtain t s1 where m: "mapZodToGraphQLOutput h schema typeName s = (t, s1)"
    by (cases "mapZodToGraphQLOutput h schema typeName s")
  have c1: "typeCache s1 k = typeCache s k"
    using mapZodToGraphQLOutput_frame(1)[OF assms(3), of h schema s] m by simp
  show ?thesis
  proof (cases t)
    case (Inl e)
    then show ?thesis using m c1 by (simp add: objectFields_def del: mapZodToGraphQLOutput.simps)
  next
    case (Inr ty)
    note f = mapZodToGraphQLOutput_fresh[OF assms(1,2) m[unfolded Inr]]
    obtain fs s' where o: "outputFields h typeName shape [] s1 = (fs, s')"
      by (cases "outputFields h typeName shape [] s1")
    have "typeCache s' k = typeCache s1 k"
      using outputFields_frame[OF assms(3), of h shape "[]" s1] o by simp
    then show ?thesis
      using m Inr f o c1
      by (cases fs)
         (simp_all add: objectFields_def getFields_def snd_defined del: mapZodToGraphQLOutput.simps)
  qed
qed

lemma state_key_not_under_data:
  "\<not> keyUnder (domainName @ ''Data'') (''object:'' @ domainName @ ''State'')"
  by (auto simp: keyUnder_def)

section \<open>Properties of the domain type\<close>

lemma fieldsOk_Nil: "fieldsOk []"
  by (simp add: fieldsOk_def)

lemma fieldsOk_assign: "fieldsOk obj \<Longrightarrow> fieldsOk (assign key v obj)"
  by (auto simp: fieldsOk_def assign_def distinct_update dom_update)

lemma fieldsOk_assignAll: "fieldsOk obj \<Longrightarrow> fieldsOk (assignAll fs obj)"
  by (induction fs obj rule: assignAll.induct) (simp_all add: fieldsOk_assign)

lemma map_of_assign:
  "map_of (assign key v obj) n = (if key = n \<and> key \<noteq> ''__proto__'' then Some v else map_of obj n)"
  by (simp add: assign_def update_conv')

lemma map_of_assignAll:
  "fieldsOk fs \<Longrightarrow>
   map_of (assignAll fs obj) n = (case map_of fs n of Some v \<Rightarrow> Some v | None \<Rightarrow> map_of obj n)"
proof (induction fs obj rule: assignAll.induct)
  case (1 obj)
  then show ?case by simp
next
  case (2 key v rest obj)
  have ok: "fieldsOk rest" and fresh: "key \<notin> fst ` set rest" and np: "key \<noteq> ''__proto__''"
    using "2.prems" by (auto simp: fieldsOk_def)
  have none: "map_of rest key = None"
    using fresh by (simp add: map_of_eq_None_iff)
  show ?case
    using "2.IH"[OF ok] none np by (simp add: map_of_assign split: option.splits)
qed

lemma map_of_assignAll_other:
  "n \<notin> fst ` set fs \<Longrightarrow> map_of (assignAll fs obj) n = map_of obj n"
  by (induction fs obj rule: assignAll.induct) (auto simp: map_of_assign)

text \<open>Of several assignments to one key, the last one stays.\<close>

lemma map_of_assignAll_last:
  "n \<in> fst ` set fs \<Longrightarrow> n \<noteq> ''__proto__'' \<Longrightarrow>
   map_of (assignAll fs obj) n = Some (snd (last (filter (\<lambda>e. fst e = n) fs)))"
proof (induction fs obj rule: assignAll.induct)
  case (1 obj)
  then show ?case by simp
next
  case (2 key v rest obj)
  show ?case
  proof (cases "n \<in> fst ` set rest")
    case True
    then have "filter (\<lambda>e. fst e = n) rest \<noteq> []" by (auto simp: filter_empty_conv)
    then show ?thesis using "2.IH"[OF True "2.prems"(2)] by simp
  next
    case False
    then have k: "key = n" using "2.prems"(1) by auto
    have "filter (\<lambda>e. fst e = n) rest = []" using False by (auto simp: filter_empty_conv)
    then show ?thesis
      using map_of_assignAll_other[OF False, of "assign key v obj"] k "2.prems"(2)
      by (simp add: map_of_assign)
  qed
qed

lemma exactly_one:
  "distinct (map fst fs) \<Longrightarrow> map_of fs n = Some v \<Longrightarrow> length (filter (\<lambda>e. fst e = n) fs) = 1"
proof (induction fs)
  case Nil
  then show ?case by simp
next
  case (Cons e fs)
  show ?case
  proof (cases "fst e = n")
    case True
    then have "n \<notin> fst ` set fs" using Cons.prems(1) by auto
    then have "filter (\<lambda>e. fst e = n) fs = []" by (auto simp: filter_empty_conv)
    then show ?thesis using True by simp
  next
    case False
    then have "map_of fs n = Some v" using Cons.prems(2) by (cases e) (auto split: if_splits)
    then show ?thesis using Cons.IH Cons.prems(1) False by simp
  qed
qed

lemma mapperInvariant_construct:
  "mapperInvariant s \<Longrightarrow> fieldsOk (fieldsOf t) \<Longrightarrow> mapperInvariant (snd (construct thrown t s))"
  by (simp add: mapperInvariant_def construct_def allocate_def split: option.splits)

lemma mapperInvariant_cacheSet:
  "mapperInvariant (snd a) \<Longrightarrow> mapperInvariant (snd (cacheSet key a))"
  by (simp add: mapperInvariant_def cacheSet_def split: prod.splits sum.splits)

lemma mapZodEnumToGraphQL_invariant:
  "mapperInvariant s \<Longrightarrow> mapperInvariant (snd (mapZodEnumToGraphQL h vs name s))"
  by (simp add: mapZodEnumToGraphQL_def Let_def mapperInvariant_cacheSet mapperInvariant_construct fieldsOk_Nil
      split: option.splits)

lemma mapZodNativeEnumToGraphQL_invariant:
  "mapperInvariant s \<Longrightarrow> mapperInvariant (snd (mapZodNativeEnumToGraphQL h vs name s))"
  by (simp add: mapZodNativeEnumToGraphQL_def Let_def mapperInvariant_cacheSet mapperInvariant_construct fieldsOk_Nil
      split: option.splits)

lemma mapZodObjectToGraphQLOutput_invariant:
  "mapperInvariant s \<Longrightarrow> mapperInvariant (snd (mapZodObjectToGraphQLOutput h shapeFunc name s))"
  by (simp add: mapZodObjectToGraphQLOutput_def mapperInvariant_cacheSet mapperInvariant_construct fieldsOk_Nil
      fieldsOk_def split: option.splits)

lemma mapZodObjectToGraphQLInput_invariant:
  "mapperInvariant s \<Longrightarrow> mapperInvariant (snd (mapZodObjectToGraphQLInput h shapeFunc name s))"
  by (simp add: mapZodObjectToGraphQLInput_def Let_def mapperInvariant_cacheSet mapperInvariant_construct fieldsOk_Nil
      fieldsOk_def split: option.splits)

lemma mapZodToGraphQLOutput_invariant:
  "mapperInvariant s \<Longrightarrow> mapperInvariant (snd (mapZodToGraphQLOutput h schema name s))"
  "mapperInvariant s \<Longrightarrow> mapperInvariant (snd (mapZodToGraphQLOutputBase h schema' name' s))"
  by (induction h schema name s and h schema' name' s rule: mapZodToGraphQLOutput_mapZodToGraphQLOutputBase.induct)
     (simp_all add: snd_asNamed snd_nonNullUnless snd_listOf mapZodEnumToGraphQL_invariant
        mapZodNativeEnumToGraphQL_invariant mapZodObjectToGraphQLOutput_invariant)

lemma mapZodToGraphQLInput_invariant:
  "mapperInvariant s \<Longrightarrow> mapperInvariant (snd (mapZodToGraphQLInput h schema name s))"
  "mapperInvariant s \<Longrightarrow> mapperInvariant (snd (mapZodToGraphQLInputBase h schema' name' s))"
  by (induction h schema name s and h schema' name' s rule: mapZodToGraphQLInput_mapZodToGraphQLInputBase.induct)
     (simp_all add: snd_asNamed snd_nonNullUnless snd_listOf mapZodEnumToGraphQL_invariant
        mapZodNativeEnumToGraphQL_invariant mapZodObjectToGraphQLInput_invariant)

lemma outputFields_invariant:
  "mapperInvariant s \<Longrightarrow> fieldsOk obj \<Longrightarrow>
   mapperInvariant (snd (outputFields h name shape obj s))
   \<and> (\<forall>fs. fst (outputFields h name shape obj s) = Inr fs \<longrightarrow> fieldsOk fs)"
proof (induction shape arbitrary: obj s)
  case Nil
  then show ?case by simp
next
  case (Cons e shape)
  obtain key fieldSchema where e: "e = (key, fieldSchema)" by (cases e)
  obtain t s' where m: "mapZodToGraphQLOutput h fieldSchema (name @ ''_'' @ key) s = (t, s')"
    by (cases "mapZodToGraphQLOutput h fieldSchema (name @ ''_'' @ key) s")
  have i: "mapperInvariant s'"
    using mapZodToGraphQLOutput_invariant(1)[OF Cons.prems(1), of h fieldSchema "name @ ''_'' @ key"] m by simp
  show ?case
    using Cons.IH[OF i fieldsOk_assign[OF Cons.prems(2)]] e m i by (cases t) simp_all
qed

lemma inputFields_invariant:
  "mapperInvariant s \<Longrightarrow> fieldsOk obj \<Longrightarrow>
   mapperInvariant (snd (inputFields h name shape obj s))
   \<and> (\<forall>fs. fst (inputFields h name shape obj s) = Inr fs \<longrightarrow> fieldsOk fs)"
proof (induction shape arbitrary: obj s)
  case Nil
  then show ?case by simp
next
  case (Cons e shape)
  obtain key fieldSchema where e: "e = (key, fieldSchema)" by (cases e)
  obtain t s' where m: "mapZodToGraphQLInput h fieldSchema (name @ ''_'' @ key) s = (t, s')"
    by (cases "mapZodToGraphQLInput h fieldSchema (name @ ''_'' @ key) s")
  have i: "mapperInvariant s'"
    using mapZodToGraphQLInput_invariant(1)[OF Cons.prems(1), of h fieldSchema "name @ ''_'' @ key"] m by simp
  show ?case
    using Cons.IH[OF i fieldsOk_assign[OF Cons.prems(2)]] e m i by (cases t) simp_all
qed

lemma mapperInvariant_resolveFields:
  "mapperInvariant s \<Longrightarrow> fieldsOk (fieldsOf t) \<Longrightarrow> mapperInvariant (resolveFields r t s)"
  by (simp add: mapperInvariant_def resolveFields_def)

lemma defined_invariant:
  "mapperInvariant s \<Longrightarrow> fieldsOk fs \<Longrightarrow> fieldsOf t = fs \<Longrightarrow>
   mapperInvariant (snd (defined thrown r t fs s))
   \<and> (\<forall>fs'. fst (defined thrown r t fs s) = Inr fs' \<longrightarrow> fieldsOk fs')"
  by (auto simp: defined_def mapperInvariant_resolveFields split: option.splits)

lemma getFields_invariant:
  assumes "mapperInvariant s"
  shows "mapperInvariant (snd (getFields h r s)) \<and> (\<forall>fs. fst (getFields h r s) = Inr fs \<longrightarrow> fieldsOk fs)"
proof (cases "types s r")
  case None
  then show ?thesis using assms by (simp add: getFields_def fieldsOk_Nil)
next
  case (Some t)
  have ok: "fieldsOk (fieldsOf t)" using assms Some by (auto simp: mapperInvariant_def)
  show ?thesis
  proof (cases t)
    case (EnumType nm vs)
    then show ?thesis using assms Some by (simp add: getFields_def fieldsOk_Nil)
  next
    case (ObjectType nm fs)
    show ?thesis
    proof (cases fs)
      case (Thunk shape name)
      obtain fs' s' where o: "outputFields h name shape [] s = (fs', s')"
        by (cases "outputFields h name shape [] s")
      have i: "mapperInvariant s' \<and> (\<forall>fl. fs' = Inr fl \<longrightarrow> fieldsOk fl)"
        using outputFields_invariant[OF assms fieldsOk_Nil, of h name shape] o by simp
      show ?thesis
      proof (cases fs')
        case (Inl e)
        then show ?thesis using Some ObjectType Thunk o i by (simp add: getFields_def)
      next
        case (Inr fl)
        then show ?thesis
          using Some ObjectType Thunk o i
            defined_invariant[of s' fl "ObjectType nm (Fields fl)" "defineFieldMap h nm fl" r]
          by (simp add: getFields_def)
      qed
    next
      case (Config fl)
      then show ?thesis
        using assms Some ObjectType ok
          defined_invariant[of s fl "ObjectType nm (Fields fl)" "defineFieldMap h nm fl" r]
        by (simp add: getFields_def)
    next
      case (Fields fl)
      then show ?thesis using assms Some ObjectType ok by (simp add: getFields_def)
    qed
  next
    case (InputObjectType nm fs)
    show ?thesis
    proof (cases fs)
      case (Thunk shape name)
      obtain fs' s' where o: "inputFields h name shape [] s = (fs', s')"
        by (cases "inputFields h name shape [] s")
      have i: "mapperInvariant s' \<and> (\<forall>fl. fs' = Inr fl \<longrightarrow> fieldsOk fl)"
        using inputFields_invariant[OF assms fieldsOk_Nil, of h name shape] o by simp
      show ?thesis
      proof (cases fs')
        case (Inl e)
        then show ?thesis using Some InputObjectType Thunk o i by (simp add: getFields_def)
      next
        case (Inr fl)
        then show ?thesis
          using Some InputObjectType Thunk o i
            defined_invariant[of s' fl "InputObjectType nm (Fields fl)" "defineInputFieldMap h nm fl" r]
          by (simp add: getFields_def)
      qed
    next
      case (Config fl)
      then show ?thesis
        using assms Some InputObjectType ok
          defined_invariant[of s fl "InputObjectType nm (Fields fl)" "defineInputFieldMap h nm fl" r]
        by (simp add: getFields_def)
    next
      case (Fields fl)
      then show ?thesis using assms Some InputObjectType ok by (simp add: getFields_def)
    qed
  qed
qed

lemma objectFields_invariant:
  assumes "mapperInvariant s"
  shows "mapperInvariant (snd (objectFields h schema typeName s))
       \<and> (\<forall>fs. fst (objectFields h schema typeName s) = Inr fs \<longrightarrow> fieldsOk fs)"
proof -
  obtain t s1 where m: "mapZodToGraphQLOutput h schema typeName s = (t, s1)"
    by (cases "mapZodToGraphQLOutput h schema typeName s")
  have i: "mapperInvariant s1"
    using mapZodToGraphQLOutput_invariant(1)[OF assms, of h schema typeName] m by simp
  show ?thesis
    using i getFields_invariant[OF i, of h] m
    by (cases t) (simp_all add: objectFields_def fieldsOk_Nil split: option.splits)
qed

lemma derivedField_names:
  "fst ` set (map (derivedField h) entries) = pathToFieldName h ` fst ` set entries"
  by (auto simp: derivedField_def image_iff split: prod.splits) force+

lemma derivedFields_other:
  "n \<notin> derivedNames h domain \<Longrightarrow> map_of (derivedFields h (derived domain) obj) n = map_of obj n"
  using derivedField_names
  by (auto simp: derivedFields_def derivedNames_def map_of_assignAll_other split: option.splits)

lemma fieldsOk_derivedFields: "fieldsOk obj \<Longrightarrow> fieldsOk (derivedFields h ds obj)"
  by (simp add: derivedFields_def fieldsOk_assignAll split: option.splits)

lemma mapperInvariant_newMapper: "mapperInvariant newMapper"
  by (simp add: mapperInvariant_def newMapper_def)

lemma mapperInvariant_clearTypeCache: "mapperInvariant s \<Longrightarrow> mapperInvariant (clearTypeCache s)"
  by (simp add: mapperInvariant_def clearTypeCache_def)

lemma schemaFields_invariant:
  "mapperInvariant s \<Longrightarrow> mapperInvariant (snd (schemaFields h schema typeName obj s))"
  using objectFields_invariant[of s h]
  by (auto simp: schemaFields_def split: option.splits prod.splits sum.splits) (metis snd_conv)+

lemma domainFields_invariant:
  assumes "mapperInvariant s"
  shows "mapperInvariant (snd (domainFields h domain domainName s))"
proof -
  obtain f1 s1 where d: "schemaFields h (dataSchema domain) (domainName @ ''Data'') [] s = (f1, s1)"
    by (cases "schemaFields h (dataSchema domain) (domainName @ ''Data'') [] s")
  have i1: "mapperInvariant s1"
    using schemaFields_invariant[OF assms, of h "dataSchema domain" "domainName @ ''Data''" "[]"] d by simp
  show ?thesis
  proof (cases f1)
    case (Inl e)
    then show ?thesis using d i1 by (simp add: domainFields_def)
  next
    case (Inr dataFields)
    obtain f2 s2 where e: "schemaFields h (stateSchema domain) (domainName @ ''State'') dataFields s1 = (f2, s2)"
      by (cases "schemaFields h (stateSchema domain) (domainName @ ''State'') dataFields s1")
    have i2: "mapperInvariant s2"
      using schemaFields_invariant[OF i1, of h "stateSchema domain" "domainName @ ''State''" dataFields] e by simp
    show ?thesis using d e i2 Inr by (cases f2) (simp_all add: domainFields_def Let_def)
  qed
qed

lemma domainGetFields_invariant:
  "mapperInvariant s \<Longrightarrow>
   mapperInvariant (snd (domainGetFields h \<lparr>dt_name = n, dt_description = d, dt_fields = domainFields h domain domainName\<rparr> s))"
  using domainFields_invariant[of s h domain domainName]
  by (auto simp: domainGetFields_def split: prod.splits sum.splits option.splits)

lemma perform_invariant: "mapperInvariant s \<Longrightarrow> mapperInvariant (perform h c s)"
  by (cases c)
     (simp_all add: mapZodToGraphQLOutput_invariant(1) mapZodToGraphQLInput_invariant(1) getFields_invariant
        domainGetFields_invariant buildDomainTypes_def domainTypeFields_def
        del: mapZodToGraphQLOutput.simps mapZodToGraphQLInput.simps split: option.splits)

lemma session_invariant: "mapperInvariant s \<Longrightarrow> mapperInvariant (session h calls s)"
  by (induction calls arbitrary: s) (simp_all add: perform_invariant)

text \<open>
  The fields of a freshly mapped object type come from its shape: the names are the
  sanitized keys, and each field has the type and the description of an entry of that name.
\<close>

lemma outputFields_names:
  "fst (outputFields h name shape obj s) = Inr fs \<Longrightarrow>
   fst ` set fs = fst ` set obj \<union> (sanitizeFieldName ` fst ` set shape - {''__proto__''})"
proof (induction shape arbitrary: obj s)
  case Nil
  then show ?case by auto
next
  case (Cons e shape)
  obtain key fieldSchema where e: "e = (key, fieldSchema)" by (cases e)
  obtain t s' where m: "mapZodToGraphQLOutput h fieldSchema (name @ ''_'' @ key) s = (t, s')"
    by (cases "mapZodToGraphQLOutput h fieldSchema (name @ ''_'' @ key) s")
  show ?case
  proof (cases t)
    case (Inl x)
    then show ?thesis using Cons.prems e m by simp
  next
    case (Inr ty)
    have "fst (outputFields h name shape (assign (sanitizeFieldName key) (ty, getZodDescription fieldSchema) obj) s')
            = Inr fs"
      using Cons.prems e m Inr by simp
    from Cons.IH[OF this] show ?thesis
      using e by (auto simp: assign_def dom_update)
  qed
qed

lemma outputFields_origin:
  assumes "fst (outputFields h name shape obj s) = Inr fs"
    and "map_of fs n = Some f"
  shows "map_of obj n = Some f
       \<or> (\<exists>key fieldSchema t s'. (key, fieldSchema) \<in> set shape \<and> sanitizeFieldName key = n
            \<and> fst (mapZodToGraphQLOutput h fieldSchema (name @ ''_'' @ key) s') = Inr t
            \<and> f = (t, getZodDescription fieldSchema))"
  using assms
proof (induction shape arbitrary: obj s)
  case Nil
  then show ?case by auto
next
  case (Cons e shape)
  obtain key fieldSchema where e: "e = (key, fieldSchema)" by (cases e)
  obtain t s' where m: "mapZodToGraphQLOutput h fieldSchema (name @ ''_'' @ key) s = (t, s')"
    by (cases "mapZodToGraphQLOutput h fieldSchema (name @ ''_'' @ key) s")
  show ?case
  proof (cases t)
    case (Inl x)
    then show ?thesis using Cons.prems e m by simp
  next
    case (Inr ty)
    let ?obj = "assign (sanitizeFieldName key) (ty, getZodDescription fieldSchema) obj"
    have "fst (outputFields h name shape ?obj s') = Inr fs"
      using Cons.prems e m Inr by simp
    from Cons.IH[OF this Cons.prems(2)] show ?thesis
    proof
      assume a: "map_of ?obj n = Some f"
      show ?thesis
      proof (cases "sanitizeFieldName key = n \<and> sanitizeFieldName key \<noteq> ''__proto__''")
        case True
        then have "f = (ty, getZodDescription fieldSchema)"
          using a by (auto simp: map_of_assign)
        moreover have "fst (mapZodToGraphQLOutput h fieldSchema (name @ ''_'' @ key) s) = Inr ty"
          using m Inr by simp
        ultimately show ?thesis using True e by (intro disjI2) (auto simp del: mapZodToGraphQLOutput.simps)
      next
        case False
        then have "map_of obj n = Some f" using a by (auto simp: map_of_assign split: if_splits)
        then show ?thesis by simp
      qed
    next
      assume "\<exists>key fieldSchema t s'. (key, fieldSchema) \<in> set shape \<and> sanitizeFieldName key = n
            \<and> fst (mapZodToGraphQLOutput h fieldSchema (name @ ''_'' @ key) s') = Inr t
            \<and> f = (t, getZodDescription fieldSchema)"
      then show ?thesis by (auto simp del: mapZodToGraphQLOutput.simps)
    qed
  qed
qed

lemma objectFields_fresh:
  assumes "fst (unwrapZodType schema) = Schema d (ZodObject (Some shape))"
    and "typeCache s (''object:'' @ typeName) = None"
    and "fst (objectFields h schema typeName s) = Inr fs"
  shows "fst (outputFields h typeName shape [] (snd (mapZodToGraphQLOutput h schema typeName s))) = Inr fs"
proof -
  obtain t s1 where m: "mapZodToGraphQLOutput h schema typeName s = (t, s1)"
    by (cases "mapZodToGraphQLOutput h schema typeName s")
  show ?thesis
  proof (cases t)
    case (Inl e)
    then show ?thesis using m assms(3) by (simp add: objectFields_def del: mapZodToGraphQLOutput.simps)
  next
    case (Inr ty)
    note f = mapZodToGraphQLOutput_fresh[OF assms(1,2) m[unfolded Inr]]
    obtain r s' where o: "outputFields h typeName shape [] s1 = (r, s')"
      by (cases "outputFields h typeName shape [] s1")
    show ?thesis
      using m Inr f o assms(3)
      by (cases r)
         (auto simp: objectFields_def getFields_def defined_def simp del: mapZodToGraphQLOutput.simps
            split: option.splits)
  qed
qed

text \<open>
  The field map that the thunk of the domain type returns when the fields of the data type
  and of the state type have been obtained.
\<close>

lemma domainFields_merged:
  assumes "dataSchema domain = Some ds"
    and "stateSchema domain = Some ss"
    and "objectFields h ds (domainName @ ''Data'') s = (Inr dataFields, s1)"
    and "objectFields h ss (domainName @ ''State'') s1 = (Inr stateFields, s2)"
    and "fieldsOk stateFields"
    and "map_of stateFields n = Some stateField"
  shows "\<exists>fs. domainFields h domain domainName s = (Inr fs, s2)
            \<and> map_of fs n =
                Some (if n \<in> derivedNames h domain then snd (derivedField h (lastDerived h domain n))
                      else stateField)
            \<and> length (filter (\<lambda>e. fst e = n) fs) = 1"
proof -
  define merged where "merged = assignAll stateFields (assignAll dataFields [])"
  define obj where "obj = derivedFields h (derived domain) merged"
  have np: "n \<noteq> ''__proto__''"
    using assms(5,6) by (force simp: fieldsOk_def dest: map_of_SomeD)
  have m: "map_of merged n = Some stateField"
    using map_of_assignAll[OF assms(5), of "assignAll dataFields []" n] assms(6) by (simp add: merged_def)
  have o: "map_of obj n =
             Some (if n \<in> derivedNames h domain then snd (derivedField h (lastDerived h domain n)) else stateField)"
  proof (cases "n \<in> derivedNames h domain")
    case False
    then show ?thesis using derivedFields_other[OF False, of merged] m by (simp add: obj_def)
  next
    case True
    then obtain entries where en: "derived domain = Some entries" and i: "n \<in> pathToFieldName h ` fst ` set entries"
      by (auto simp: derivedNames_def split: option.splits)
    have i': "n \<in> fst ` set (map (derivedField h) entries)"
      using i derivedField_names[of h entries] by simp
    have f: "filter (\<lambda>e. fst e = n) (map (derivedField h) entries) =
             map (derivedField h) (filter (\<lambda>e. pathToFieldName h (fst e) = n) entries)"
      by (induction entries) (auto simp: derivedField_def split: prod.splits)
    have ne: "filter (\<lambda>e. pathToFieldName h (fst e) = n) entries \<noteq> []"
      using i by (auto simp: filter_empty_conv)
    show ?thesis
      using map_of_assignAll_last[OF i' np, of merged] en True ne
      by (simp add: obj_def derivedFields_def f last_map lastDerived_def)
  qed
  have ne: "obj \<noteq> []" using o by auto
  have "fieldsOk merged"
    by (simp add: merged_def fieldsOk_assignAll fieldsOk_Nil)
  then have d: "distinct (map fst obj)"
    using fieldsOk_derivedFields[of merged h "derived domain"] by (simp add: obj_def fieldsOk_def)
  have "domainFields h domain domainName s = (Inr obj, s2)"
    using assms(1,2,3,4) ne
    by (simp add: domainFields_def schemaFields_def obj_def merged_def Let_def)
  then show ?thesis using o exactly_one[OF d o] by simp
qed

text \<open>
  Claim C6, as stated, fails when a derived path has the same field name: the data schema and
  the state schema of this domain both declare \<open>total\<close>, and so do their generated types, but
  the derived path \<open>derived.total\<close> is assigned after them, so the one field \<open>total\<close> of the
  domain type has the JSON type and the description of the derived path.
\<close>

theorem derived_path_overrides_state_field:
  "dataSchema derivedTotalDomain = Some totalData
   \<and> stateSchema derivedTotalDomain = Some totalState
   \<and> fst (objectFields strictHost totalData ''OrderData'' newMapper) =
       Inr [(''total'', (GraphQLNonNull GraphQLFloat, Some ''Data total''))]
   \<and> fst (objectFields strictHost totalState ''OrderState''
          (snd (objectFields strictHost totalData ''OrderData'' newMapper))) =
       Inr [(''total'', (GraphQLNonNull GraphQLString, Some ''State total''))]
   \<and> fst (domainTypeFields strictHost derivedTotalDomain ''Order'' newMapper) =
       Inr [(''total'', (GraphQLJSON, Some ''Derived field: derived.total''))]"
proof -
  have a: "dataSchema derivedTotalDomain = Some totalData" "stateSchema derivedTotalDomain = Some totalState"
    by (simp_all add: derivedTotalDomain_def orderDomain_def)
  have b: "fst (objectFields strictHost totalData ''OrderData'' newMapper) =
       Inr [(''total'', (GraphQLNonNull GraphQLFloat, Some ''Data total''))]"
    by code_simp
  have c: "fst (objectFields strictHost totalState ''OrderState''
          (snd (objectFields strictHost totalData ''OrderData'' newMapper))) =
       Inr [(''total'', (GraphQLNonNull GraphQLString, Some ''State total''))]"
    by code_simp
  have d: "fst (domainTypeFields strictHost derivedTotalDomain ''Order'' newMapper) =
       Inr [(''total'', (GraphQLJSON, Some ''Derived field: derived.total''))]"
    by code_simp
  show ?thesis using a b c d by simp
qed

text \<open>
  Generation does fail where graphql-js rejects a name: the name of the domain type, which
  \<open>buildDomainTypes\<close> passes on as it is, and the field name of a derived path, which
  \<open>pathToFieldName\<close> does not sanitize. And of two derived paths with one field name the
  later one gives the description.
\<close>

lemma generation_fails_on_rejected_name:
  "fst (domainTypeFields strictHost orderDomain ''1A'' newMapper) = Inl (Error ''Invalid name: 1A'')"
  "fst (domainTypeFields strictHost totalPriceDomain ''Order'' newMapper) = Inl (Error ''Invalid name: total-price'')"
  by code_simp+

lemma later_derived_path_overrides:
  "fst (domainTypeFields strictHost twiceDerivedDomain ''Order'' newMapper) =
     Inr [(''total'', (GraphQLJSON, Some ''Sum''))]"
  by code_simp

text \<open>
  Claim C6 (amended). A domain has a data schema and a state schema whose generated types
  both have a field \<open>n\<close>, and graphql-js accepts the name of the domain type. Then the domain
  type is constructed and its fields thunk returns a field map with exactly one field named
  \<open>n\<close>: nothing is reported and the collision makes nothing fail. When no derived path has the
  field name \<open>n\<close>, the type and the description of that field are those of the field \<open>n\<close>
  of the state type; when derived paths have the field name \<open>n\<close>, the field has the JSON type
  and the description of the last of them. \<open>getFields()\<close> of the domain type returns this
  field map, unless graphql-js rejects the map when it defines the fields, and then it throws
  what graphql-js throws.
\<close>

theorem state_field_overrides_data_field:
  assumes "mapperInvariant s"
    and "dataSchema domain = Some ds"
    and "stateSchema domain = Some ss"
    and "objectFields h ds (domainName @ ''Data'') s = (Inr dataFields, s1)"
    and "objectFields h ss (domainName @ ''State'') s1 = (Inr stateFields, s2)"
    and "map_of dataFields n = Some dataField"
    and "map_of stateFields n = Some stateField"
    and "newGraphQLObjectType h domainName = None"
  shows "\<exists>dt fs. buildDomainTypes h domain domainName = Inr dt
            \<and> dt_fields dt s = (Inr fs, s2)
            \<and> length (filter (\<lambda>e. fst e = n) fs) = 1
            \<and> (n \<notin> derivedNames h domain \<longrightarrow> map_of fs n = Some stateField)
            \<and> (n \<in> derivedNames h domain \<longrightarrow>
                 map_of fs n = Some (snd (derivedField h (lastDerived h domain n)))
                 \<and> fst (snd (derivedField h (lastDerived h domain n))) = GraphQLJSON)
            \<and> domainTypeFields h domain domainName s =
                 (case defineFieldMap h domainName fs of None \<Rightarrow> Inr fs | Some e \<Rightarrow> Inl e, s2)"
proof -
  have i1: "mapperInvariant s1"
    using objectFields_invariant[OF assms(1), of h ds "domainName @ ''Data''"] assms(4) by simp
  have ok: "fieldsOk stateFields"
    using objectFields_invariant[OF i1, of h ss "domainName @ ''State''"] assms(5) by simp
  obtain fs where fs: "domainFields h domain domainName s = (Inr fs, s2)"
      "map_of fs n =
         Some (if n \<in> derivedNames h domain then snd (derivedField h (lastDerived h domain n)) else stateField)"
      "length (filter (\<lambda>e. fst e = n) fs) = 1"
    using domainFields_merged[OF assms(2) assms(3) assms(4) assms(5) ok assms(7)] by blast
  let ?dt = "\<lparr>dt_name = domainName, dt_description = dom_name domain,
               dt_fields = domainFields h domain domainName\<rparr>"
  have b: "buildDomainTypes h domain domainName = Inr ?dt"
    using assms(8) by (simp add: buildDomainTypes_def)
  have g: "domainTypeFields h domain domainName s =
             (case defineFieldMap h domainName fs of None \<Rightarrow> Inr fs | Some e \<Rightarrow> Inl e, s2)"
    using b fs(1) by (simp add: domainTypeFields_def domainGetFields_def split: option.splits)
  have j: "fst (snd (derivedField h e)) = GraphQLJSON" for e
    by (simp add: derivedField_def split: prod.splits)
  show ?thesis
    using b fs g j by (intro exI[of _ ?dt] exI[of _ fs]) simp
qed

theorem state_field_overrides_data_field_witness:
  "mapperInvariant newMapper
   \<and> dataSchema orderDomain = Some totalData
   \<and> stateSchema orderDomain = Some totalState
   \<and> fst (objectFields strictHost totalData ''OrderData'' newMapper) =
       Inr [(''total'', (GraphQLNonNull GraphQLFloat, Some ''Data total''))]
   \<and> fst (objectFields strictHost totalState ''OrderState''
          (snd (objectFields strictHost totalData ''OrderData'' newMapper))) =
       Inr [(''total'', (GraphQLNonNull GraphQLString, Some ''State total''))]
   \<and> newGraphQLObjectType strictHost ''Order'' = None
   \<and> ''total'' \<notin> derivedNames strictHost orderDomain
   \<and> (\<exists>fs. fst (domainTypeFields strictHost orderDomain ''Order'' newMapper) = Inr fs
          \<and> map_of fs ''total'' = Some (GraphQLNonNull GraphQLString, Some ''State total'')
          \<and> length (filter (\<lambda>e. fst e = ''total'') fs) = 1)"
proof -
  let ?d = "objectFields strictHost totalData ''OrderData'' newMapper"
  let ?s = "objectFields strictHost totalState ''OrderState'' (snd ?d)"
  let ?fs = "[(''total'', (GraphQLNonNull GraphQLString, Some ''State total'')),
              (''count'', (GraphQLJSON, Some ''Derived field: derived.count''))]"
  have a: "dataSchema orderDomain = Some totalData" "stateSchema orderDomain = Some totalState"
    by (simp_all add: orderDomain_def)
  have b: "fst ?d = Inr [(''total'', (GraphQLNonNull GraphQLFloat, Some ''Data total''))]"
    by code_simp
  have c: "fst ?s = Inr [(''total'', (GraphQLNonNull GraphQLString, Some ''State total''))]"
    by code_simp
  have b': "?d = (Inr [(''total'', (GraphQLNonNull GraphQLFloat, Some ''Data total''))], snd ?d)"
    using b by (metis prod.collapse)
  have c': "?s = (Inr [(''total'', (GraphQLNonNull GraphQLString, Some ''State total''))], snd ?s)"
    using c by (metis prod.collapse)
  have e: "''total'' \<notin> derivedNames strictHost orderDomain"
    by code_simp
  have n: "newGraphQLObjectType strictHost ''Order'' = None"
    by code_simp
  have k: "fst (domainFields strictHost orderDomain ''Order'' newMapper) = Inr ?fs"
    by code_simp
  have f: "defineFieldMap strictHost ''Order'' ?fs = None"
    by code_simp
  have m1: "map_of [(''total'', (GraphQLNonNull GraphQLFloat, Some ''Data total''))] ''total'' =
              Some (GraphQLNonNull GraphQLFloat, Some ''Data total'')"
    by simp
  have m2: "map_of [(''total'', (GraphQLNonNull GraphQLString, Some ''State total''))] ''total'' =
              Some (GraphQLNonNull GraphQLString, Some ''State total'')"
    by simp
  obtain dt fs where r: "buildDomainTypes strictHost orderDomain ''Order'' = Inr dt"
      "dt_fields dt newMapper = (Inr fs, snd ?s)"
      "length (filter (\<lambda>e. fst e = ''total'') fs) = 1"
      "map_of fs ''total'' = Some (GraphQLNonNull GraphQLString, Some ''State total'')"
      "domainTypeFields strictHost orderDomain ''Order'' newMapper =
         (case defineFieldMap strictHost ''Order'' fs of None \<Rightarrow> Inr fs | Some e \<Rightarrow> Inl e, snd ?s)"
    using state_field_overrides_data_field[where s = newMapper and domain = orderDomain and ds = totalData
        and ss = totalState and h = strictHost and domainName = "''Order''" and ?s1.0 = "snd ?d" and ?s2.0 = "snd ?s"
        and n = "''total''" and dataFields = "[(''total'', (GraphQLNonNull GraphQLFloat, Some ''Data total''))]"
        and stateFields = "[(''total'', (GraphQLNonNull GraphQLString, Some ''State total''))]"
        and dataField = "(GraphQLNonNull GraphQLFloat, Some ''Data total'')"
        and stateField = "(GraphQLNonNull GraphQLString, Some ''State total'')"]
      mapperInvariant_newMapper a b' c' n e
    by auto
  have "dt_fields dt = domainFields strictHost orderDomain ''Order''"
    using r(1) n by (auto simp: buildDomainTypes_def)
  then have "fs = ?fs" using r(2) k by simp
  then have "fst (domainTypeFields strictHost orderDomain ''Order'' newMapper) = Inr fs"
    using r(5) f by simp
  then show ?thesis using mapperInvariant_newMapper a b c e n r(3,4) by blast
qed

text \<open>
  The same from the schemas: in a pass whose cache holds no type yet for the data and the state
  schema of the domain, and in which the fields of the two types are obtained, a field that the
  state schema declares, under a name that no derived path has, is the one field of that name
  that the thunk of the domain type returns, with the mapped type and the description of an
  entry of the state schema's shape.
\<close>

lemma outputFields_fieldsOk:
  "fieldsOk obj \<Longrightarrow> fst (outputFields h name shape obj s) = Inr fs \<Longrightarrow> fieldsOk fs"
proof (induction shape arbitrary: obj s)
  case Nil
  then show ?case by simp
next
  case (Cons e shape)
  obtain key fieldSchema where e: "e = (key, fieldSchema)" by (cases e)
  obtain t s' where m: "mapZodToGraphQLOutput h fieldSchema (name @ ''_'' @ key) s = (t, s')"
    by (cases "mapZodToGraphQLOutput h fieldSchema (name @ ''_'' @ key) s")
  show ?case
    using Cons.IH[OF fieldsOk_assign[OF Cons.prems(1)]] Cons.prems(2) e m by (cases t) simp_all
qed

lemma declared_state_field_overrides:
  assumes "dataSchema domain = Some ds"
    and "fst (unwrapZodType ds) = Schema dd (ZodObject (Some dataShape))"
    and "stateSchema domain = Some ss"
    and "fst (unwrapZodType ss) = Schema sd (ZodObject (Some stateShape))"
    and "typeCache s (''object:'' @ domainName @ ''Data'') = None"
    and "typeCache s (''object:'' @ domainName @ ''State'') = None"
    and "objectFields h ds (domainName @ ''Data'') s = (Inr dataFields, s1)"
    and "objectFields h ss (domainName @ ''State'') s1 = (Inr stateFields, s2)"
    and "key \<in> fst ` set stateShape"
    and "sanitizeFieldName key \<noteq> ''__proto__''"
    and "sanitizeFieldName key \<notin> derivedNames h domain"
  shows "\<exists>fs key' fieldSchema t s'.
            domainFields h domain domainName s = (Inr fs, s2)
          \<and> (key', fieldSchema) \<in> set stateShape
          \<and> sanitizeFieldName key' = sanitizeFieldName key
          \<and> fst (mapZodToGraphQLOutput h fieldSchema (domainName @ ''State_'' @ key') s') = Inr t
          \<and> map_of fs (sanitizeFieldName key) = Some (t, getZodDescription fieldSchema)
          \<and> length (filter (\<lambda>e. fst e = sanitizeFieldName key) fs) = 1"
proof -
  let ?n = "sanitizeFieldName key"
  have "typeCache s1 (''object:'' @ domainName @ ''State'') = typeCache s (''object:'' @ domainName @ ''State'')"
    using objectFields_frame[OF assms(2) _ state_key_not_under_data, of s domainName h] assms(5,7) by simp
  then have fresh: "typeCache s1 (''object:'' @ (domainName @ ''State'')) = None"
    using assms(6) by simp
  let ?s1 = "snd (mapZodToGraphQLOutput h ss (domainName @ ''State'') s1)"
  have sf: "fst (outputFields h (domainName @ ''State'') stateShape [] ?s1) = Inr stateFields"
    using objectFields_fresh[OF assms(4) fresh, of h stateFields] assms(8) by simp
  have ok: "fieldsOk stateFields"
    using outputFields_fieldsOk[OF fieldsOk_Nil sf] .
  have "?n \<in> fst ` set stateFields"
    using outputFields_names[OF sf] assms(9,10) by auto
  then obtain stateField where f: "map_of stateFields ?n = Some stateField"
    by (metis domIff dom_map_of_conv_image_fst not_Some_eq)
  obtain key' fieldSchema t s' where o: "(key', fieldSchema) \<in> set stateShape" "sanitizeFieldName key' = ?n"
      "fst (mapZodToGraphQLOutput h fieldSchema ((domainName @ ''State'') @ ''_'' @ key') s') = Inr t"
      "stateField = (t, getZodDescription fieldSchema)"
    using outputFields_origin[OF sf f] by auto
  obtain fs where "domainFields h domain domainName s = (Inr fs, s2)"
      "map_of fs ?n = Some stateField" "length (filter (\<lambda>e. fst e = ?n) fs) = 1"
    using domainFields_merged[OF assms(1) assms(3) assms(7) assms(8) ok f] assms(11) by auto
  then show ?thesis using o by (auto simp del: mapZodToGraphQLOutput.simps)
qed

end
